theory Spec2Isabelle
  imports Main
begin

section \<open>The users table\<close>

text \<open>
  A row of the \<^verbatim>\<open>users\<close> table of \<^verbatim>\<open>db/schema.ts\<close>. The column \<^verbatim>\<open>id\<close> is named
  \<open>user_id\<close> here (\<open>id\<close> is HOL's identity function). The column \<^verbatim>\<open>refresh_tokens\<close> is a
  nullable text holding \<^verbatim>\<open>JSON.stringify\<close> of an array of strings: every writer in
  \<^verbatim>\<open>auth.route.ts\<close> stores such a text and every reader applies \<^verbatim>\<open>JSON.parse\<close> to it, so
  the column is modelled by the array itself, \<open>None\<close> being SQL \<^verbatim>\<open>NULL\<close>. The table is the list
  of its rows in insertion order.
\<close>

record user =
  user_id :: string
  username :: string
  passwordHash :: string
  role :: string
  refreshTokens :: "string list option"
  defaultDashboardId :: "string option"

type_synonym db = "user list"

text \<open>\<^verbatim>\<open>db.select().from(users).where(eq(users.username, name)).get()\<close>: the first row.\<close>

definition select_by_username :: "db \<Rightarrow> string \<Rightarrow> user option" where
  "select_by_username db name = find (\<lambda>u. username u = name) db"

text \<open>
  \<^verbatim>\<open>db.update(users).set({ refreshTokens: JSON.stringify(ts) }).where(eq(users.id, i)).run()\<close>:
  every row whose id is \<open>i\<close> gets the new list.
\<close>

definition update_refreshTokens :: "string \<Rightarrow> string list \<Rightarrow> db \<Rightarrow> db" where
  "update_refreshTokens i ts db =
     map (\<lambda>u. if user_id u = i then u\<lparr>refreshTokens := Some ts\<rparr> else u) db"

text \<open>
  \<^verbatim>\<open>db.insert(users).values(row).run()\<close>: the table declares \<^verbatim>\<open>id TEXT PRIMARY KEY\<close> and
  \<^verbatim>\<open>username TEXT NOT NULL UNIQUE\<close>, so an insert that repeats either raises.
\<close>

definition insert_user :: "user \<Rightarrow> db \<Rightarrow> string + db" where
  "insert_user row db =
     (if user_id row \<in> set (map user_id db) \<or> username row \<in> set (map username db)
      then Inl ''SqliteError''
      else Inr (db @ [row]))"

text \<open>\<^verbatim>\<open>user.refreshTokens ? JSON.parse(user.refreshTokens) : []\<close>\<close>

definition parse_refreshTokens :: "user \<Rightarrow> string list" where
  "parse_refreshTokens u = (case refreshTokens u of None \<Rightarrow> [] | Some ts \<Rightarrow> ts)"

section \<open>JSON values\<close>

text \<open>
  A value of a request body or of a response body. \<open>JUndefined\<close> is a field that is
  absent; \<open>JCompound\<close> stands for an array or an object, given by its JSON text. Numbers
  are taken as integers. \<open>truthy\<close> is JavaScript's conversion to a boolean, the test behind
  \<^verbatim>\<open>!x\<close>: an array and an object are always true.
\<close>

datatype jval = JUndefined | JNull | JBool bool | JNumber int | JString string | JCompound string

fun truthy :: "jval \<Rightarrow> bool" where
  "truthy JUndefined = False"
| "truthy JNull = False"
| "truthy (JBool b) = b"
| "truthy (JNumber n) = (n \<noteq> 0)"
| "truthy (JString s) = (s \<noteq> [])"
| "truthy (JCompound j) = True"

section \<open>The libraries and the process environment\<close>

text \<open>
  What the handlers call outside the repository is a parameter of the model: the signing
  library (\<^verbatim>\<open>jwt.sign\<close>, \<^verbatim>\<open>jwt.verify\<close>, \<^verbatim>\<open>jwt.decode\<close>), the password hash
  (\<^verbatim>\<open>bcrypt.hash\<close>, \<^verbatim>\<open>bcrypt.compare\<close>), the id a new row gets (\<^verbatim>\<open>randomUUID()\<close>) and
  \<^verbatim>\<open>process.env.SECRET\<close>. One value of \<open>env\<close> is the environment of one request: signing
  and verifying depend on the clock, so two requests may run under different environments.
  \<^verbatim>\<open>jwt.verify\<close> either returns the payload or raises an error with a name.

  \<open>jwt_payload\<close> is the object given to \<^verbatim>\<open>jwt.sign\<close>: its username is whatever value the
  caller passes. \<open>jwt_claims\<close> is what \<^verbatim>\<open>jwt.verify\<close> returns, read as the source's cast
  \<^verbatim>\<open>as { username: string }\<close> has it.

  \<open>sqlite_bind\<close> is what the database driver does with a value that is not a string when
  it is compared with the text column \<^verbatim>\<open>username\<close>: it raises (\<open>Inl\<close>), or it compares the
  column with a text made from the value (\<open>Inr\<close>). A string is compared as it is.
\<close>

record jwt_payload =
  payload_username :: jval
  payload_role :: "string option"

record jwt_claims =
  claim_username :: string
  claim_role :: "string option"

record jwt_decoded =
  exp :: "int option"

record env =
  SECRET :: string
  jwt_sign :: "jwt_payload \<Rightarrow> string \<Rightarrow> string \<Rightarrow> string"
  jwt_verify :: "string \<Rightarrow> string \<Rightarrow> string + jwt_claims"
  jwt_decode :: "string \<Rightarrow> jwt_decoded option"
  bcrypt_hash :: "string \<Rightarrow> nat \<Rightarrow> string"
  bcrypt_compare :: "string \<Rightarrow> string \<Rightarrow> bool"
  randomUUID :: string
  sqlite_bind :: "jval \<Rightarrow> string + string"

definition bind_text :: "env \<Rightarrow> jval \<Rightarrow> string + string" where
  "bind_text e v = (case v of JString s \<Rightarrow> Inr s | _ \<Rightarrow> sqlite_bind e v)"

definition JWT_SECRET :: "env \<Rightarrow> string" where
  "JWT_SECRET e = SECRET e"

definition REFRESH_TOKEN_SECRET :: "env \<Rightarrow> string" where
  "REFRESH_TOKEN_SECRET e = SECRET e"

definition ACCESS_TOKEN_EXPIRY :: string where
  "ACCESS_TOKEN_EXPIRY = ''3d''"

definition REFRESH_TOKEN_EXPIRY :: string where
  "REFRESH_TOKEN_EXPIRY = ''7d''"

definition generateAccessToken :: "env \<Rightarrow> jval \<Rightarrow> string \<Rightarrow> string" where
  "generateAccessToken e name r =
     jwt_sign e \<lparr>payload_username = name, payload_role = Some r\<rparr> (JWT_SECRET e)
       ACCESS_TOKEN_EXPIRY"

definition generateRefreshToken :: "env \<Rightarrow> jval \<Rightarrow> string" where
  "generateRefreshToken e name =
     jwt_sign e \<lparr>payload_username = name, payload_role = None\<rparr> (REFRESH_TOKEN_SECRET e)
       REFRESH_TOKEN_EXPIRY"

text \<open>
  A JavaScript \<^verbatim>\<open>Date\<close> holds a time value in milliseconds, or \<^verbatim>\<open>NaN\<close> (an invalid date)
  when the value given to the constructor is beyond 8.64e15 in absolute value.
  \<^verbatim>\<open>toISOString\<close> raises \<^verbatim>\<open>RangeError\<close> on an invalid date; the text it returns otherwise
  is only logged and is left out.
\<close>

datatype js_date = Date int | Invalid_Date

definition new_Date :: "int \<Rightarrow> js_date" where
  "new_Date ms = (if \<bar>ms\<bar> \<le> 8640000000000000 then Date ms else Invalid_Date)"

definition toISOString :: "js_date \<Rightarrow> string + unit" where
  "toISOString d = (case d of Date ms \<Rightarrow> Inr () | Invalid_Date \<Rightarrow> Inl ''RangeError'')"

definition getTokenExpiration :: "env \<Rightarrow> string \<Rightarrow> js_date option" where
  "getTokenExpiration e token =
     (case jwt_decode e token of
        None \<Rightarrow> None
      | Some decoded \<Rightarrow>
          (case exp decoded of
             None \<Rightarrow> None
           | Some x \<Rightarrow> if x = 0 then None else Some (new_Date (x * 1000))))"

text \<open>
  Modelled from the spec: the time-span notation of the signing library is not under src/;
  the spec reads the expiry \<^verbatim>\<open>'3d'\<close> as 3 days and \<^verbatim>\<open>'7d'\<close> as 7 days. \<open>span_ms\<close> gives
  the milliseconds of a span written as decimal digits and one unit letter.
\<close>

definition digit_val :: "char \<Rightarrow> nat option" where
  "digit_val c =
     (let n = (of_char c :: nat) in if 48 \<le> n \<and> n \<le> 57 then Some (n - 48) else None)"

definition unit_ms :: "char \<Rightarrow> nat option" where
  "unit_ms c =
     (if c = CHR ''d'' then Some (24 * 60 * 60 * 1000)
      else if c = CHR ''h'' then Some (60 * 60 * 1000)
      else if c = CHR ''m'' then Some (60 * 1000)
      else if c = CHR ''s'' then Some 1000
      else None)"

fun span_ms_from :: "nat \<Rightarrow> string \<Rightarrow> nat option" where
  "span_ms_from n [] = None"
| "span_ms_from n [c] = (case unit_ms c of None \<Rightarrow> None | Some u \<Rightarrow> Some (n * u))"
| "span_ms_from n (c # cs) =
     (case digit_val c of None \<Rightarrow> None | Some d \<Rightarrow> span_ms_from (10 * n + d) cs)"

definition span_ms :: "string \<Rightarrow> nat option" where
  "span_ms s = (case s of [] \<Rightarrow> None | [c] \<Rightarrow> None | _ \<Rightarrow> span_ms_from 0 s)"

section \<open>Requests and responses\<close>

text \<open>
  A request cookie and a field of the signup body are a string or absent (\<open>None\<close>).
  JavaScript's \<^verbatim>\<open>!x\<close> holds of an absent value and of the empty string, so a test
  \<^verbatim>\<open>if (!x)\<close> on them is a case distinction on the option followed by a test for \<open>[]\<close>.
  The fields of the login body are any JSON value.
\<close>

record cookie_options =
  httpOnly :: "bool option"
  secure :: "bool option"
  sameSite :: "string option"
  path :: "string option"
  maxAge :: "nat option"

datatype cookie_op = Cookie string string cookie_options | ClearCookie string cookie_options

text \<open>
  The response: its status (200 unless \<^verbatim>\<open>res.status\<close> sets another), its JSON body
  (\<open>None\<close> after \<^verbatim>\<open>res.end()\<close>) and the cookie headers in the order of the calls.
\<close>

record response =
  status :: nat
  body :: "(string \<times> jval) list option"
  cookies :: "cookie_op list"

definition res0 :: response where
  "res0 = \<lparr>status = 200, body = None, cookies = []\<rparr>"

definition res_status :: "nat \<Rightarrow> response \<Rightarrow> response" where
  "res_status n r = r\<lparr>status := n\<rparr>"

definition res_json :: "(string \<times> jval) list \<Rightarrow> response \<Rightarrow> response" where
  "res_json j r = r\<lparr>body := Some j\<rparr>"

definition res_cookie :: "string \<Rightarrow> string \<Rightarrow> cookie_options \<Rightarrow> response \<Rightarrow> response" where
  "res_cookie n v opts r = r\<lparr>cookies := cookies r @ [Cookie n v opts]\<rparr>"

definition res_clearCookie :: "string \<Rightarrow> cookie_options \<Rightarrow> response \<Rightarrow> response" where
  "res_clearCookie n opts r = r\<lparr>cookies := cookies r @ [ClearCookie n opts]\<rparr>"

text \<open>The option objects the handlers pass to \<^verbatim>\<open>res.cookie\<close> and \<^verbatim>\<open>res.clearCookie\<close>.\<close>

definition access_cookie_options :: cookie_options where
  "access_cookie_options =
     \<lparr>httpOnly = Some True, secure = Some False, sameSite = Some ''lax'', path = Some ''/'',
      maxAge = Some (24 * 60 * 60 * 1000)\<rparr>"

definition refresh_cookie_options :: cookie_options where
  "refresh_cookie_options =
     \<lparr>httpOnly = Some True, secure = Some False, sameSite = Some ''lax'', path = Some ''/'',
      maxAge = Some (7 * 24 * 60 * 60 * 1000)\<rparr>"

definition clear_options :: cookie_options where
  "clear_options =
     \<lparr>httpOnly = Some True, secure = Some False, sameSite = Some ''lax'', path = Some ''/'',
      maxAge = None\<rparr>"

definition clear_options_client :: cookie_options where
  "clear_options_client =
     \<lparr>httpOnly = None, secure = Some False, sameSite = None, path = Some ''/'',
      maxAge = None\<rparr>"

text \<open>The \<^verbatim>\<open>catch\<close> of every handler.\<close>

definition internal_server_error :: response where
  "internal_server_error =
     res_json [(''message'', JString ''Internal server error'')] (res_status 500 res0)"

definition clear_both :: "response \<Rightarrow> response" where
  "clear_both r =
     res_clearCookie ''refresh_token'' clear_options
       (res_clearCookie ''access_token'' clear_options r)"

section \<open>Signup\<close>

definition fields_required :: response where
  "fields_required =
     res_json [(''message'', JString ''Username and password are required'')]
       (res_status 400 res0)"

definition signup_checked :: "env \<Rightarrow> db \<Rightarrow> string \<Rightarrow> string \<Rightarrow> response \<times> db" where
  "signup_checked e db name password =
     (case select_by_username db name of
        Some existingUser \<Rightarrow>
          (res_json [(''message'', JString ''Username already exists'')]
             (res_status 409 res0), db)
      | None \<Rightarrow>
          (let saltRounds = 10;
               hash = bcrypt_hash e password saltRounds;
               allUsers = db;
               r = (if length allUsers = 0 then ''admin'' else ''user'')
           in case insert_user
                     \<lparr>user_id = randomUUID e, username = name, passwordHash = hash,
                      role = r, refreshTokens = Some [], defaultDashboardId = None\<rparr> db of
                Inl err \<Rightarrow> (internal_server_error, db)
              | Inr db' \<Rightarrow>
                  (res_json [(''message'', JString ''User created successfully''),
                             (''username'', JString name)]
                     (res_status 201 res0), db')))"

definition signup :: "env \<Rightarrow> db \<Rightarrow> string option \<Rightarrow> string option \<Rightarrow> response \<times> db" where
  "signup e db un pw =
     (case un of
        None \<Rightarrow> (fields_required, db)
      | Some name \<Rightarrow>
          (case pw of
             None \<Rightarrow> (fields_required, db)
           | Some password \<Rightarrow>
               if name = [] \<or> password = [] then (fields_required, db)
               else signup_checked e db name password))"

section \<open>Login\<close>

definition invalid_credentials :: response where
  "invalid_credentials =
     res_json [(''message'', JString ''Invalid credentials'')] (res_status 401 res0)"

text \<open>
  The handler awaits \<^verbatim>\<open>bcrypt.compare\<close>, so it runs in two parts and other requests are
  handled between them. \<open>login_begin\<close> is the part before the \<^verbatim>\<open>await\<close>: it ends the
  request (\<open>Inl\<close>) or leaves it pending (\<open>Inr\<close>) with the body fields and the row \<open>user\<close>
  it has read. \<open>login_resume\<close> is the part after it, run on the table as it is by then:
  \<^verbatim>\<open>bcrypt.compare\<close> raises on a password that is not a string, and the list written is the
  list of the row read before the \<^verbatim>\<open>await\<close> with the new token appended. \<open>login\<close> is a
  login with no other request between its two parts.
\<close>

record login_pending =
  pending_username :: jval
  pending_password :: jval
  pending_user :: user

definition login_begin :: "env \<Rightarrow> db \<Rightarrow> jval \<Rightarrow> jval \<Rightarrow> response + login_pending" where
  "login_begin e db un pw =
     (if \<not> truthy un then Inl fields_required
      else if \<not> truthy pw then Inl fields_required
      else
        (case bind_text e un of
           Inl err \<Rightarrow> Inl internal_server_error
         | Inr name \<Rightarrow>
             (case select_by_username db name of
                None \<Rightarrow> Inl invalid_credentials
              | Some u \<Rightarrow>
                  Inr \<lparr>pending_username = un, pending_password = pw, pending_user = u\<rparr>)))"

definition login_resume :: "env \<Rightarrow> db \<Rightarrow> login_pending \<Rightarrow> response \<times> db" where
  "login_resume e db p =
     (case pending_password p of
        JString password \<Rightarrow>
          if \<not> bcrypt_compare e password (passwordHash (pending_user p))
          then (invalid_credentials, db)
          else
            (let token = generateAccessToken e (pending_username p) (role (pending_user p));
                 refreshToken = generateRefreshToken e (pending_username p);
                 tokens = parse_refreshTokens (pending_user p) @ [refreshToken];
                 db' = update_refreshTokens (user_id (pending_user p)) tokens db
             in (res_json [(''message'', JString ''Login successful''),
                           (''username'', pending_username p),
                           (''isAdmin'', JBool (role (pending_user p) = ''admin''))]
                   (res_cookie ''refresh_token'' refreshToken refresh_cookie_options
                      (res_cookie ''access_token'' token access_cookie_options res0)),
                 db'))
      | _ \<Rightarrow> (internal_server_error, db))"

definition login :: "env \<Rightarrow> db \<Rightarrow> jval \<Rightarrow> jval \<Rightarrow> response \<times> db" where
  "login e db un pw =
     (case login_begin e db un pw of
        Inl r \<Rightarrow> (r, db)
      | Inr p \<Rightarrow> login_resume e db p)"

section \<open>Refresh\<close>

text \<open>\<^verbatim>\<open>xs.indexOf(x)\<close>: the index of the first element equal to \<open>x\<close>, or -1.\<close>

fun indexOf :: "'a list \<Rightarrow> 'a \<Rightarrow> int" where
  "indexOf [] x = -1"
| "indexOf (y # ys) x =
     (if y = x then 0 else (let i = indexOf ys x in if i = -1 then -1 else i + 1))"

text \<open>\<^verbatim>\<open>xs.splice(i, 1)\<close> for an index \<open>i\<close> that is not negative: the list without its
  element at \<open>i\<close>.\<close>

definition splice_one :: "nat \<Rightarrow> 'a list \<Rightarrow> 'a list" where
  "splice_one i xs = take i xs @ drop (i + 1) xs"

text \<open>
  The sweep of the branch "token not found": the loop runs over the rows read before it
  (\<open>allUsers\<close>) and writes to the table as it goes.
\<close>

fun sweep :: "string \<Rightarrow> user list \<Rightarrow> db \<Rightarrow> db" where
  "sweep t [] db = db"
| "sweep t (u # us) db =
     sweep t us
       (case refreshTokens u of
          None \<Rightarrow> db
        | Some tokens \<Rightarrow>
            (let filtered = filter (\<lambda>x. x \<noteq> t) tokens
             in if length filtered \<noteq> length tokens
                then update_refreshTokens (user_id u) filtered db
                else db))"

definition refresh_verified :: "env \<Rightarrow> db \<Rightarrow> string \<Rightarrow> jwt_claims \<Rightarrow> response \<times> db" where
  "refresh_verified e db refreshToken decoded =
     (case select_by_username db (claim_username decoded) of
        None \<Rightarrow>
          (res_json [(''message'', JString ''User not found'')]
             (res_status 401 (clear_both res0)), db)
      | Some u \<Rightarrow>
          (let userRefreshTokens = parse_refreshTokens u;
               tokenIndex = indexOf userRefreshTokens refreshToken
           in if tokenIndex = -1 then
                (res_json [(''message'', JString ''Refresh token not found'')]
                   (res_status 401 (clear_both res0)),
                 sweep refreshToken db db)
              else
                (let newAccessToken =
                       generateAccessToken e (JString (claim_username decoded)) (role u);
                     newRefreshToken = generateRefreshToken e (JString (claim_username decoded));
                     tokens = splice_one (nat tokenIndex) userRefreshTokens @ [newRefreshToken];
                     db' = update_refreshTokens (user_id u) tokens db
                 in (res_json [(''message'', JString ''Token refreshed successfully''),
                               (''isAdmin'', JBool (role u = ''admin''))]
                       (res_cookie ''refresh_token'' newRefreshToken refresh_cookie_options
                          (res_cookie ''access_token'' newAccessToken access_cookie_options
                             res0)),
                     db'))))"

text \<open>
  The diagnostic block before verification logs the expiry of the decoded token with
  \<^verbatim>\<open>expirationDate.toISOString()\<close>; what it logs has no effect, but the call raises on an
  invalid date, and the handler's \<^verbatim>\<open>catch\<close> answers 500.
\<close>

definition log_expiration :: "env \<Rightarrow> string \<Rightarrow> string + unit" where
  "log_expiration e refreshToken =
     (case getTokenExpiration e refreshToken of
        None \<Rightarrow> Inr ()
      | Some expirationDate \<Rightarrow> toISOString expirationDate)"

definition refresh_present :: "env \<Rightarrow> db \<Rightarrow> string \<Rightarrow> response \<times> db" where
  "refresh_present e db refreshToken =
     (case log_expiration e refreshToken of
        Inl err \<Rightarrow> (internal_server_error, db)
      | Inr logged \<Rightarrow>
          (case jwt_verify e refreshToken (REFRESH_TOKEN_SECRET e) of
             Inl err_name \<Rightarrow>
               if err_name = ''TokenExpiredError'' then
                 (res_json [(''message'', JString ''Refresh token expired'')]
                    (res_status 401 (clear_both res0)), db)
               else
                 (res_json [(''message'', JString ''Invalid refresh token'')]
                    (res_status 401 res0), db)
           | Inr decoded \<Rightarrow> refresh_verified e db refreshToken decoded))"

definition refresh :: "env \<Rightarrow> db \<Rightarrow> string option \<Rightarrow> response \<times> db" where
  "refresh e db cookie =
     (case cookie of
        None \<Rightarrow> (res_status 204 res0, db)
      | Some refreshToken \<Rightarrow>
          if refreshToken = [] then (res_status 204 res0, db)
          else refresh_present e db refreshToken)"

section \<open>Logout\<close>

text \<open>The loop over the rows read before it, left by \<^verbatim>\<open>break\<close> after the first write.\<close>

fun logout_scan :: "string \<Rightarrow> user list \<Rightarrow> db \<Rightarrow> db" where
  "logout_scan t [] db = db"
| "logout_scan t (u # us) db =
     (case refreshTokens u of
        None \<Rightarrow> logout_scan t us db
      | Some tokens \<Rightarrow>
          if t \<in> set tokens
          then update_refreshTokens (user_id u) (filter (\<lambda>x. x \<noteq> t) tokens) db
          else logout_scan t us db)"

definition no_session :: response where
  "no_session = res_json [(''message'', JString ''No session to logout'')] res0"

definition logged_out :: response where
  "logged_out =
     res_json [(''message'', JString ''Logged out successfully'')]
       (res_clearCookie ''refresh_token'' clear_options_client
          (res_clearCookie ''access_token'' clear_options_client (clear_both res0)))"

definition logout :: "db \<Rightarrow> string option \<Rightarrow> response \<times> db" where
  "logout db cookie =
     (case cookie of
        None \<Rightarrow> (no_session, db)
      | Some refreshToken \<Rightarrow>
          if refreshToken = [] then (no_session, db)
          else (logged_out, logout_scan refreshToken db db))"

section \<open>The read-only checks and the subsystem as a whole\<close>

definition check_users :: "db \<Rightarrow> response \<times> db" where
  "check_users db = (res_json [(''hasUsers'', JBool (length db > 0))] res0, db)"

text \<open>
  One step of the subsystem, and what it does to the table: a request handled from its
  beginning to its end, or the second part of a login that has been pending. A pending login
  carries the row it read when it began; \<open>LoginResume\<close> takes any pending login, so a run
  also covers logins that began before the run. \<open>Login\<close> is a login whose two parts follow
  each other; the first part of a login writes nothing, so these steps cover every way a
  login can overlap other requests. Refresh, logout and the check have no \<^verbatim>\<open>await\<close>.
  Signup awaits the password hash after its check for an existing username; it then reads
  the table for the role and inserts in one piece, and an insert that repeats a username
  raises. It is taken as one step at the moment of the insert.
\<close>

datatype request =
    Signup "string option" "string option"
  | Login jval jval
  | LoginResume login_pending
  | Refresh "string option"
  | Logout "string option"
  | CheckUsers

fun handle :: "env \<Rightarrow> db \<Rightarrow> request \<Rightarrow> response \<times> db" where
  "handle e db (Signup un pw) = signup e db un pw"
| "handle e db (Login un pw) = login e db un pw"
| "handle e db (LoginResume p) = login_resume e db p"
| "handle e db (Refresh c) = refresh e db c"
| "handle e db (Logout c) = logout db c"
| "handle e db CheckUsers = check_users db"

text \<open>
  A run of steps, each under the environment of its moment. The routes
  \<^verbatim>\<open>/check-admin\<close> and \<^verbatim>\<open>/check-cookies\<close> read the request only and are left out.
\<close>

fun run :: "db \<Rightarrow> (env \<times> request) list \<Rightarrow> db" where
  "run db [] = db"
| "run db ((e, rq) # rest) = run (snd (handle e db rq)) rest"

section \<open>Notions used to state the properties\<close>

text \<open>A row with every occurrence of the token \<open>t\<close> removed from its list.\<close>

definition without_token :: "string \<Rightarrow> user \<Rightarrow> user" where
  "without_token t v =
     (case refreshTokens v of
        None \<Rightarrow> v
      | Some ts \<Rightarrow> v\<lparr>refreshTokens := Some (filter (\<lambda>x. x \<noteq> t) ts)\<rparr>)"

text \<open>The rows whose list holds the token \<open>t\<close>.\<close>

definition holders :: "string \<Rightarrow> db \<Rightarrow> user list" where
  "holders t db = filter (\<lambda>v. t \<in> set (parse_refreshTokens v)) db"

text \<open>
  What a step may do to a row \<open>v\<close>, giving \<open>v'\<close>, seen from the row with the id \<open>i\<close>
  and the token \<open>R\<close>: the id and the username stay, and the token does not enter the list
  of the row \<open>i\<close>.
\<close>

definition row_evolves :: "string \<Rightarrow> string \<Rightarrow> user \<Rightarrow> user \<Rightarrow> bool" where
  "row_evolves i R v v' =
     (user_id v' = user_id v \<and> username v' = username v \<and>
      (user_id v = i \<and> R \<notin> set (parse_refreshTokens v)
         \<longrightarrow> R \<notin> set (parse_refreshTokens v')))"

text \<open>
  The token \<open>R\<close> is retired for the user \<open>name\<close>, whose row has the id \<open>i\<close>: the ids of
  the table are distinct (the primary key), the user has that row, and its list does not
  hold \<open>R\<close>.
\<close>

definition token_retired :: "string \<Rightarrow> string \<Rightarrow> string \<Rightarrow> db \<Rightarrow> bool" where
  "token_retired name i R db =
     (distinct (map user_id db) \<and>
      (case select_by_username db name of
         None \<Rightarrow> False
       | Some u \<Rightarrow> user_id u = i \<and> R \<notin> set (parse_refreshTokens u)))"

text \<open>
  A step that cannot bring the retired token \<open>R\<close> back into the list of the user \<open>name\<close>
  (row id \<open>i\<close>): a login or a refresh of that user does not sign \<open>R\<close> again, and a pending
  login that writes the row \<open>i\<close> has read a list without \<open>R\<close>, that is, it began after
  the rotation.
\<close>

definition keeps_retired :: "string \<Rightarrow> string \<Rightarrow> string \<Rightarrow> env \<times> request \<Rightarrow> bool" where
  "keeps_retired name i R s =
     (case snd s of
        Login un pw \<Rightarrow>
          bind_text (fst s) un = Inr name \<longrightarrow> generateRefreshToken (fst s) un \<noteq> R
      | LoginResume p \<Rightarrow>
          user_id (pending_user p) = i \<longrightarrow>
            R \<notin> set (parse_refreshTokens (pending_user p)) \<and>
            generateRefreshToken (fst s) (pending_username p) \<noteq> R
      | Refresh c \<Rightarrow> generateRefreshToken (fst s) (JString name) \<noteq> R
      | _ \<Rightarrow> True)"

text \<open>The max-age of a cookie (milliseconds) is at most the span an expiry string denotes.\<close>

definition within_expiry :: "cookie_options \<Rightarrow> string \<Rightarrow> bool" where
  "within_expiry opts expiry =
     (case maxAge opts of
        None \<Rightarrow> False
      | Some m \<Rightarrow> (case span_ms expiry of None \<Rightarrow> False | Some a \<Rightarrow> m \<le> a))"

section \<open>Example data\<close>

text \<open>
  A toy environment for the concrete instances below. At the moment \<open>stamp\<close> the signing
  function yields \<^verbatim>\<open>name.stamp\<close> as refresh token and \<^verbatim>\<open>name.stamp.role\<close> as access token
  (with \<^verbatim>\<open>?\<close> for a username that is not a string): like the real library it is a function
  of the payload and the clock, so two calls at the same moment for the same user give the
  same token. Verification reads the user from the prefix of the token; \<^verbatim>\<open>stale\<close> is an
  expired token. The password comparison holds of the password the hash was made from. The
  driver of this environment raises on every value that is not a string. \<open>forged_token\<close> is a token an
  attacker writes without the secret: its payload is
  \<^verbatim>\<open>{"username":"alice","exp":1e20}\<close>, which \<^verbatim>\<open>jwt.decode\<close> returns without checking the
  signature, and its signature is wrong.
\<close>

definition forged_token :: string where
  "forged_token =
     ''eyJhbGciOiJIUzI1NiIsInR5cCI6IkpXVCJ9.eyJ1c2VybmFtZSI6ImFsaWNlIiwiZXhwIjoxZTIwfQ.AA''"

definition example_env :: "string \<Rightarrow> env" where
  "example_env stamp =
     \<lparr>SECRET = ''secret'',
      jwt_sign = (\<lambda>c s x.
         (case payload_username c of JString n \<Rightarrow> n | _ \<Rightarrow> ''?'') @ ''.'' @ stamp @
         (case payload_role c of None \<Rightarrow> [] | Some r \<Rightarrow> ''.'' @ r)),
      jwt_verify = (\<lambda>t s.
         if t = ''stale'' then Inl ''TokenExpiredError''
         else if take 6 t = ''alice.'' then Inr \<lparr>claim_username = ''alice'', claim_role = None\<rparr>
         else if take 4 t = ''bob.'' then Inr \<lparr>claim_username = ''bob'', claim_role = None\<rparr>
         else Inl ''JsonWebTokenError''),
      jwt_decode = (\<lambda>t.
         if t = forged_token then Some \<lparr>exp = Some 100000000000000000000\<rparr>
         else Some \<lparr>exp = Some 1800000000\<rparr>),
      bcrypt_hash = (\<lambda>p n. ''hash:'' @ p),
      bcrypt_compare = (\<lambda>p h. h = ''hash:'' @ p),
      randomUUID = ''id-'' @ stamp,
      sqlite_bind = (\<lambda>v. Inl ''TypeError'')\<rparr>"

definition alice_row :: "string list \<Rightarrow> user" where
  "alice_row ts =
     \<lparr>user_id = ''id-1'', username = ''alice'', passwordHash = ''hash:pw1'', role = ''admin'',
      refreshTokens = Some ts, defaultDashboardId = None\<rparr>"

definition bob_row :: "string list \<Rightarrow> user" where
  "bob_row ts =
     \<lparr>user_id = ''id-2'', username = ''bob'', passwordHash = ''hash:pw2'', role = ''user'',
      refreshTokens = Some ts, defaultDashboardId = None\<rparr>"

section \<open>Unfolding the model\<close>

lemmas response_defs = res_json_def res_status_def res_cookie_def res_clearCookie_def res0_def
  clear_both_def internal_server_error_def fields_required_def invalid_credentials_def
  no_session_def logged_out_def

lemmas example_defs = example_env_def alice_row_def bob_row_def

lemmas eval_defs = example_env_def alice_row_def bob_row_def forged_token_def
  login_def login_begin_def login_resume_def bind_text_def signup_def signup_checked_def insert_user_def
  refresh_def refresh_present_def refresh_verified_def logout_def check_users_def
  log_expiration_def getTokenExpiration_def new_Date_def toISOString_def
  generateRefreshToken_def generateAccessToken_def REFRESH_TOKEN_SECRET_def JWT_SECRET_def
  ACCESS_TOKEN_EXPIRY_def REFRESH_TOKEN_EXPIRY_def
  select_by_username_def update_refreshTokens_def parse_refreshTokens_def splice_one_def
  without_token_def holders_def Let_def response_defs

section \<open>Lists and the table\<close>

lemma indexOf_ge: "-1 \<le> indexOf xs x"
  by (induction xs) (auto simp: Let_def)

lemma indexOf_absent: "(indexOf xs x = -1) = (x \<notin> set xs)"
proof (induction xs)
  case Nil
  show ?case by simp
next
  case (Cons y ys)
  have "-1 \<le> indexOf ys x" by (rule indexOf_ge)
  with Cons show ?case by (auto simp: Let_def)
qed

lemma splice_one_indexOf:
  "x \<in> set xs \<Longrightarrow> splice_one (nat (indexOf xs x)) xs = remove1 x xs"
proof (induction xs)
  case Nil
  then show ?case by simp
next
  case (Cons y ys)
  show ?case
  proof (cases "y = x")
    case True
    then show ?thesis by (simp add: splice_one_def)
  next
    case False
    with Cons.prems have mem: "x \<in> set ys" by simp
    then have ne: "indexOf ys x \<noteq> -1" by (simp add: indexOf_absent)
    have ge: "-1 \<le> indexOf ys x" by (rule indexOf_ge)
    from ne ge have nn: "0 \<le> indexOf ys x" by arith
    then have "nat (indexOf ys x + 1) = Suc (nat (indexOf ys x))" by arith
    with False ne Cons.IH[OF mem] show ?thesis
      by (simp add: splice_one_def Let_def)
  qed
qed

lemma filter_absent: "t \<notin> set xs \<Longrightarrow> filter (\<lambda>x. x \<noteq> t) xs = xs"
  by (induction xs) auto

lemma filter_present: "t \<in> set xs \<Longrightarrow> length (filter (\<lambda>x. x \<noteq> t) xs) < length xs"
  by (induction xs) (auto simp: less_Suc_eq_le)

lemma filter_same_length:
  "length (filter (\<lambda>x. x \<noteq> t) xs) = length xs \<Longrightarrow> filter (\<lambda>x. x \<noteq> t) xs = xs"
  using filter_present[of t xs] filter_absent[of t xs] by (cases "t \<in> set xs") auto

lemma count_list_remove1_self:
  "count_list xs x = 1 \<Longrightarrow> x \<notin> set (remove1 x xs)"
  by (induction xs) (auto simp: count_list_0_iff split: if_splits)

lemma select_by_username_SomeD:
  "select_by_username db name = Some u \<Longrightarrow> u \<in> set db \<and> username u = name"
  unfolding select_by_username_def
  by (induction db) (auto split: if_splits)

lemma select_index:
  "select_by_username db name = Some u \<Longrightarrow> \<exists>i<length db. db ! i = u"
  using select_by_username_SomeD[of db name u] by (auto simp: in_set_conv_nth)

lemma length_update_refreshTokens [simp]:
  "length (update_refreshTokens i ts db) = length db"
  by (simp add: update_refreshTokens_def)

lemma map_user_id_update [simp]:
  "map user_id (update_refreshTokens i ts db) = map user_id db"
  by (simp add: update_refreshTokens_def)

lemma map_username_update [simp]:
  "map username (update_refreshTokens i ts db) = map username db"
  by (simp add: update_refreshTokens_def)

lemma map_role_update [simp]:
  "map role (update_refreshTokens i ts db) = map role db"
  by (simp add: update_refreshTokens_def)

lemma key_cols_update [simp]:
  "map (\<lambda>u. (user_id u, role u)) (update_refreshTokens i ts db) = map (\<lambda>u. (user_id u, role u)) db"
  by (simp add: update_refreshTokens_def)

lemma select_update:
  "select_by_username (update_refreshTokens i ts db) name =
     map_option (\<lambda>u. if user_id u = i then u\<lparr>refreshTokens := Some ts\<rparr> else u)
       (select_by_username db name)"
  unfolding select_by_username_def update_refreshTokens_def
  by (induction db) auto

lemma update_at_index:
  assumes "distinct (map user_id db)" "i < length db"
  shows "update_refreshTokens (user_id (db ! i)) ts db = db[i := (db ! i)\<lparr>refreshTokens := Some ts\<rparr>]"
proof (rule nth_equalityI)
  show "length (update_refreshTokens (user_id (db ! i)) ts db) =
        length (db[i := (db ! i)\<lparr>refreshTokens := Some ts\<rparr>])"
    by simp
next
  fix j assume "j < length (update_refreshTokens (user_id (db ! i)) ts db)"
  then have j: "j < length db" by simp
  have "(user_id (db ! j) = user_id (db ! i)) = (j = i)"
    using assms j nth_eq_iff_index_eq[of "map user_id db" j i] by simp
  with j assms(2) show "update_refreshTokens (user_id (db ! i)) ts db ! j =
      db[i := (db ! i)\<lparr>refreshTokens := Some ts\<rparr>] ! j"
    by (auto simp: update_refreshTokens_def nth_list_update)
qed

lemma update_other_ids:
  "user_id u \<notin> set (map user_id xs) \<Longrightarrow> update_refreshTokens (user_id u) ts xs = xs"
  by (induction xs) (auto simp: update_refreshTokens_def)

lemma update_append:
  "update_refreshTokens i ts (xs @ ys) = update_refreshTokens i ts xs @ update_refreshTokens i ts ys"
  by (simp add: update_refreshTokens_def)

lemma update_split:
  assumes "user_id u \<notin> set (map user_id pre)" "user_id u \<notin> set (map user_id post)"
  shows "update_refreshTokens (user_id u) ts (pre @ u # post) =
         pre @ u\<lparr>refreshTokens := Some ts\<rparr> # post"
proof -
  have "update_refreshTokens (user_id u) ts (u # post) = u\<lparr>refreshTokens := Some ts\<rparr> # post"
    using update_other_ids[OF assms(2), of ts] by (simp add: update_refreshTokens_def)
  then show ?thesis
    using update_other_ids[OF assms(1), of ts] by (simp add: update_append)
qed

lemma same_row:
  assumes "distinct (map user_id db)" "u \<in> set db" "v \<in> set db"
  shows "(user_id v = user_id u) = (v = u)"
  using assms by (auto simp: distinct_map inj_on_def)

section \<open>The sweep and the logout scan\<close>

lemma user_id_without_token [simp]: "user_id (without_token t v) = user_id v"
  by (simp add: without_token_def split: option.splits)

lemma without_token_unchanged:
  "refreshTokens u = Some ts \<Longrightarrow> length (filter (\<lambda>x. x \<noteq> t) ts) = length ts \<Longrightarrow>
   without_token t u = u"
proof -
  assume a: "refreshTokens u = Some ts" and b: "length (filter (\<lambda>x. x \<noteq> t) ts) = length ts"
  from b have "filter (\<lambda>x. x \<noteq> t) ts = ts" by (rule filter_same_length)
  with a show ?thesis by (simp add: without_token_def)
qed

lemma not_holds_without_token [simp]: "t \<notin> set (parse_refreshTokens (without_token t v))"
  by (simp add: without_token_def parse_refreshTokens_def split: option.splits)

lemma subset_without_token:
  "set (parse_refreshTokens (without_token t v)) \<subseteq> set (parse_refreshTokens v)"
  by (auto simp: without_token_def parse_refreshTokens_def split: option.splits)

lemma sweep_split:
  "distinct (map user_id (pre @ us)) \<Longrightarrow>
   sweep t us (map (without_token t) pre @ us) = map (without_token t) (pre @ us)"
proof (induction us arbitrary: pre)
  case Nil
  show ?case by simp
next
  case (Cons u us)
  from Cons.prems have d: "distinct (map user_id ((pre @ [u]) @ us))" by simp
  from Cons.prems have n1: "user_id u \<notin> set (map user_id (map (without_token t) pre))"
    and n2: "user_id u \<notin> set (map user_id us)" by auto
  have step: "(case refreshTokens u of
          None \<Rightarrow> map (without_token t) pre @ u # us
        | Some tokens \<Rightarrow>
            (let filtered = filter (\<lambda>x. x \<noteq> t) tokens
             in if length filtered \<noteq> length tokens
                then update_refreshTokens (user_id u) filtered (map (without_token t) pre @ u # us)
                else map (without_token t) pre @ u # us))
       = map (without_token t) (pre @ [u]) @ us"
  proof (cases "refreshTokens u")
    case None
    then show ?thesis by (simp add: without_token_def)
  next
    case (Some tokens)
    show ?thesis
    proof (cases "length (filter (\<lambda>x. x \<noteq> t) tokens) = length tokens")
      case True
      with Some show ?thesis by (simp add: without_token_unchanged)
    next
      case False
      with Some update_split[OF n1 n2] show ?thesis
        by (simp add: without_token_def)
    qed
  qed
  show ?case
    using Cons.IH[OF d] step by simp
qed

lemma sweep_distinct:
  "distinct (map user_id db) \<Longrightarrow> sweep t db db = map (without_token t) db"
  using sweep_split[of "[]" db t] by simp

lemma sweep_residue:
  "v \<in> set (sweep t us db) \<Longrightarrow> t \<in> set (parse_refreshTokens v) \<Longrightarrow>
   v \<in> set db \<and> (\<forall>u\<in>set us. user_id u = user_id v \<longrightarrow> t \<notin> set (parse_refreshTokens u))"
proof (induction us arbitrary: db)
  case Nil
  then show ?case by simp
next
  case (Cons u us)
  let ?db1 = "(case refreshTokens u of
          None \<Rightarrow> db
        | Some tokens \<Rightarrow>
            (let filtered = filter (\<lambda>x. x \<noteq> t) tokens
             in if length filtered \<noteq> length tokens
                then update_refreshTokens (user_id u) filtered db
                else db))"
  from Cons.prems have "v \<in> set (sweep t us ?db1)" by simp
  from Cons.IH[OF this Cons.prems(2)]
  have v1: "v \<in> set ?db1" and rest: "\<forall>u\<in>set us. user_id u = user_id v \<longrightarrow> t \<notin> set (parse_refreshTokens u)"
    by auto
  show ?case
  proof (cases "t \<in> set (parse_refreshTokens u)")
    case False
    then have "?db1 = db"
      by (auto simp: parse_refreshTokens_def Let_def filter_absent split: option.splits)
    with v1 rest False show ?thesis by auto
  next
    case True
    then obtain tokens where tk: "refreshTokens u = Some tokens" "t \<in> set tokens"
      by (cases "refreshTokens u") (auto simp: parse_refreshTokens_def)
    then have "length (filter (\<lambda>x. x \<noteq> t) tokens) \<noteq> length tokens"
      using filter_present[of t tokens] by simp
    with tk have "?db1 = update_refreshTokens (user_id u) (filter (\<lambda>x. x \<noteq> t) tokens) db"
      by (simp add: Let_def)
    with v1 Cons.prems(2) have "v \<in> set db \<and> user_id v \<noteq> user_id u"
      by (auto simp: update_refreshTokens_def parse_refreshTokens_def split: if_splits)
    with rest show ?thesis by auto
  qed
qed

lemma sweep_removes_all:
  "v \<in> set (sweep t db db) \<Longrightarrow> t \<notin> set (parse_refreshTokens v)"
  using sweep_residue[of v t db db] by blast

lemma key_cols_sweep [simp]:
  "map (\<lambda>u. (user_id u, role u)) (sweep t us db) = map (\<lambda>u. (user_id u, role u)) db"
  by (induction us arbitrary: db) (auto simp: Let_def split: option.splits)

lemma length_sweep [simp]: "length (sweep t us db) = length db"
  by (induction us arbitrary: db) (auto simp: Let_def split: option.splits)

lemma logout_scan_noop:
  "\<forall>u\<in>set us. t \<notin> set (parse_refreshTokens u) \<Longrightarrow> logout_scan t us db = db"
  by (induction us) (auto simp: parse_refreshTokens_def split: option.splits)

lemma logout_scan_first:
  "logout_scan t us db =
     (case find (\<lambda>u. t \<in> set (parse_refreshTokens u)) us of
        None \<Rightarrow> db
      | Some u \<Rightarrow>
          update_refreshTokens (user_id u) (filter (\<lambda>x. x \<noteq> t) (parse_refreshTokens u)) db)"
  by (induction us) (auto simp: parse_refreshTokens_def split: option.splits)

lemma holders_single:
  assumes "length (holders t db) \<le> 1" "u \<in> set db" "t \<in> set (parse_refreshTokens u)"
    "v \<in> set db" "t \<in> set (parse_refreshTokens v)"
  shows "v = u"
proof -
  from assms(2,3) have u: "u \<in> set (holders t db)" by (simp add: holders_def)
  from assms(4,5) have v: "v \<in> set (holders t db)" by (simp add: holders_def)
  from assms(1) u obtain x where "holders t db = [x]"
    by (cases "holders t db") (auto simp: length_Suc_conv)
  with u v show ?thesis by simp
qed

lemma logout_removes_single:
  assumes one: "length (holders t db) \<le> 1"
  shows "holders t (logout_scan t db db) = []"
proof (cases "find (\<lambda>u. t \<in> set (parse_refreshTokens u)) db")
  case None
  then have "holders t db = []"
    by (auto simp: holders_def find_None_iff filter_empty_conv)
  with None show ?thesis by (simp add: logout_scan_first)
next
  case (Some u)
  then have u: "u \<in> set db" "t \<in> set (parse_refreshTokens u)"
    by (auto simp: find_Some_iff in_set_conv_nth)
  have "\<forall>v\<in>set db. t \<in> set (parse_refreshTokens v) \<longrightarrow> user_id v = user_id u"
    using holders_single[OF one u] by blast
  then have "holders t (update_refreshTokens (user_id u)
      (filter (\<lambda>x. x \<noteq> t) (parse_refreshTokens u)) db) = []"
    by (auto simp: holders_def update_refreshTokens_def filter_empty_conv parse_refreshTokens_def)
  with Some show ?thesis by (simp add: logout_scan_first)
qed

lemma map_cols_sweep:
  "map user_id (sweep t us db) = map user_id db \<and> map username (sweep t us db) = map username db
   \<and> map role (sweep t us db) = map role db"
  by (induction us arbitrary: db) (auto simp: Let_def split: option.splits)

lemma map_cols_logout_scan:
  "map user_id (logout_scan t us db) = map user_id db \<and>
   map username (logout_scan t us db) = map username db \<and>
   map role (logout_scan t us db) = map role db"
  by (induction us) (auto split: option.splits)

lemma holders_empty_iff: "(holders t db = []) = (\<forall>u\<in>set db. t \<notin> set (parse_refreshTokens u))"
  by (auto simp: holders_def filter_empty_conv)

lemma key_cols_logout_scan [simp]:
  "map (\<lambda>u. (user_id u, role u)) (logout_scan t us db) = map (\<lambda>u. (user_id u, role u)) db"
  by (induction us) (auto split: option.splits)

lemma length_logout_scan [simp]: "length (logout_scan t us db) = length db"
  by (induction us) (auto split: option.splits)

section \<open>The branches of the handlers\<close>

lemma refresh_success_cases:
  assumes "status (fst (refresh e db c)) = 200"
  shows "\<exists>t d u. c = Some t \<and> t \<noteq> [] \<and> log_expiration e t = Inr () \<and>
           jwt_verify e t (REFRESH_TOKEN_SECRET e) = Inr d \<and>
           select_by_username db (claim_username d) = Some u \<and>
           t \<in> set (parse_refreshTokens u)"
  using assms
  by (auto simp: refresh_def refresh_present_def refresh_verified_def res_status_def res0_def
      res_json_def clear_both_def res_clearCookie_def internal_server_error_def Let_def
      indexOf_absent
      split: option.splits sum.splits if_splits)

lemma refresh_rotate:
  assumes "t \<noteq> []" "log_expiration e t = Inr ()"
    "jwt_verify e t (REFRESH_TOKEN_SECRET e) = Inr d"
    "select_by_username db (claim_username d) = Some u"
    "t \<in> set (parse_refreshTokens u)"
  shows "refresh e db (Some t) =
    (res_json [(''message'', JString ''Token refreshed successfully''),
               (''isAdmin'', JBool (role u = ''admin''))]
       (res_cookie ''refresh_token'' (generateRefreshToken e (JString (claim_username d)))
          refresh_cookie_options
          (res_cookie ''access_token'' (generateAccessToken e (JString (claim_username d)) (role u))
             access_cookie_options res0)),
     update_refreshTokens (user_id u)
       (remove1 t (parse_refreshTokens u) @ [generateRefreshToken e (JString (claim_username d))]) db)"
  using assms
  by (simp add: refresh_def refresh_present_def refresh_verified_def Let_def indexOf_absent
      splice_one_indexOf)

lemma refresh_not_found:
  assumes "R \<noteq> []" "log_expiration e R = Inr ()"
    "jwt_verify e R (REFRESH_TOKEN_SECRET e) = Inr d"
    "select_by_username db (claim_username d) = Some u"
    "R \<notin> set (parse_refreshTokens u)"
  shows "refresh e db (Some R) =
      (\<lparr>status = 401, body = Some [(''message'', JString ''Refresh token not found'')],
        cookies = [ClearCookie ''access_token'' clear_options,
                   ClearCookie ''refresh_token'' clear_options]\<rparr>,
       sweep R db db)"
  using assms
  by (simp add: refresh_def refresh_present_def refresh_verified_def Let_def indexOf_absent
      response_defs)

lemma refresh_ignores_role_claim:
  "refresh (e\<lparr>jwt_verify := \<lambda>t s. map_sum id (\<lambda>d. d\<lparr>claim_role := r\<rparr>) (jwt_verify e t s)\<rparr>)
      db c = refresh e db c"
proof -
  let ?e = "e\<lparr>jwt_verify := \<lambda>t s. map_sum id (\<lambda>d. d\<lparr>claim_role := r\<rparr>) (jwt_verify e t s)\<rparr>"
  have g1: "\<And>n. generateRefreshToken ?e n = generateRefreshToken e n"
    by (simp add: generateRefreshToken_def REFRESH_TOKEN_SECRET_def)
  have g2: "\<And>n x. generateAccessToken ?e n x = generateAccessToken e n x"
    by (simp add: generateAccessToken_def JWT_SECRET_def)
  have v: "\<And>t d. refresh_verified ?e db t (d\<lparr>claim_role := r\<rparr>) = refresh_verified e db t d"
    by (simp add: refresh_verified_def g1 g2 Let_def split: option.splits)
  have l: "\<And>t. log_expiration ?e t = log_expiration e t"
    by (simp add: log_expiration_def getTokenExpiration_def)
  have "\<And>t. refresh_present ?e db t = refresh_present e db t"
    by (simp add: refresh_present_def l v REFRESH_TOKEN_SECRET_def split: sum.splits)
  then show ?thesis by (simp add: refresh_def split: option.splits)
qed

lemma login_resume_success:
  assumes "status (fst (login_resume e db p)) = 200"
  shows "snd (login_resume e db p) =
           update_refreshTokens (user_id (pending_user p))
             (parse_refreshTokens (pending_user p) @
                [generateRefreshToken e (pending_username p)]) db"
  using assms
  by (auto simp: login_resume_def response_defs Let_def split: jval.splits if_splits)

lemma login_resume_cases:
  "snd (login_resume e db p) = db \<or>
   snd (login_resume e db p) =
     update_refreshTokens (user_id (pending_user p))
       (parse_refreshTokens (pending_user p) @
          [generateRefreshToken e (pending_username p)]) db"
  by (simp add: login_resume_def Let_def split: jval.splits)

lemma login_begin_pending:
  assumes "login_begin e db un pw = Inr p"
  shows "pending_username p = un \<and> pending_password p = pw \<and>
         (\<exists>name. bind_text e un = Inr name \<and>
            select_by_username db name = Some (pending_user p))"
  using assms
  by (auto simp: login_begin_def split: if_splits sum.splits option.splits)

lemma login_cases:
  "snd (login e db un pw) = db \<or>
   (\<exists>name u. bind_text e un = Inr name \<and> select_by_username db name = Some u \<and>
      snd (login e db un pw) =
        update_refreshTokens (user_id u)
          (parse_refreshTokens u @ [generateRefreshToken e un]) db)"
proof (cases "login_begin e db un pw")
  case (Inl r)
  then show ?thesis by (simp add: login_def)
next
  case (Inr p)
  from login_begin_pending[OF Inr] login_resume_cases[of e db p] Inr
  show ?thesis by (auto simp: login_def)
qed

lemma login_resume_cookies:
  "cookies (fst (login_resume e db p)) = [] \<or>
   (\<exists>name r. cookies (fst (login_resume e db p)) =
      [Cookie ''access_token''
         (jwt_sign e \<lparr>payload_username = name, payload_role = Some r\<rparr> (JWT_SECRET e)
            ACCESS_TOKEN_EXPIRY)
         access_cookie_options,
       Cookie ''refresh_token''
         (jwt_sign e \<lparr>payload_username = name, payload_role = None\<rparr>
            (REFRESH_TOKEN_SECRET e) REFRESH_TOKEN_EXPIRY)
         refresh_cookie_options])"
proof (cases "cookies (fst (login_resume e db p)) = []")
  case True
  then show ?thesis by simp
next
  case False
  then have "cookies (fst (login_resume e db p)) =
      [Cookie ''access_token''
         (jwt_sign e \<lparr>payload_username = pending_username p,
                       payload_role = Some (role (pending_user p))\<rparr> (JWT_SECRET e)
            ACCESS_TOKEN_EXPIRY)
         access_cookie_options,
       Cookie ''refresh_token''
         (jwt_sign e \<lparr>payload_username = pending_username p, payload_role = None\<rparr>
            (REFRESH_TOKEN_SECRET e) REFRESH_TOKEN_EXPIRY)
         refresh_cookie_options]"
    by (auto simp: login_resume_def response_defs Let_def generateAccessToken_def
        generateRefreshToken_def split: jval.splits if_splits)
  then show ?thesis by blast
qed

lemma handle_cookies:
  "cookies (fst (handle e db rq)) = [] \<or>
   cookies (fst (handle e db rq)) =
     [ClearCookie ''access_token'' clear_options,
      ClearCookie ''refresh_token'' clear_options] \<or>
   cookies (fst (handle e db rq)) =
     [ClearCookie ''access_token'' clear_options,
      ClearCookie ''refresh_token'' clear_options,
      ClearCookie ''access_token'' clear_options_client,
      ClearCookie ''refresh_token'' clear_options_client] \<or>
   (\<exists>name r. cookies (fst (handle e db rq)) =
      [Cookie ''access_token''
         (jwt_sign e \<lparr>payload_username = name, payload_role = Some r\<rparr> (JWT_SECRET e)
            ACCESS_TOKEN_EXPIRY)
         access_cookie_options,
       Cookie ''refresh_token''
         (jwt_sign e \<lparr>payload_username = name, payload_role = None\<rparr>
            (REFRESH_TOKEN_SECRET e) REFRESH_TOKEN_EXPIRY)
         refresh_cookie_options])"
proof (cases rq)
  case (Signup un pw)
  then show ?thesis
    by (simp add: signup_def signup_checked_def response_defs Let_def
        split: option.splits sum.splits)
next
  case (Login un pw)
  show ?thesis
  proof (cases "login_begin e db un pw")
    case (Inl r)
    then have "r = fields_required \<or> r = internal_server_error \<or> r = invalid_credentials"
      by (auto simp: login_begin_def split: if_splits sum.splits option.splits)
    with Inl Login show ?thesis by (auto simp: login_def response_defs)
  next
    case (Inr p)
    have "fst (handle e db rq) = fst (login_resume e db p)"
      using Login Inr by (simp add: login_def)
    with login_resume_cookies[of e db p] show ?thesis by (simp only:) blast
  qed
next
  case (LoginResume p)
  then have "fst (handle e db rq) = fst (login_resume e db p)" by simp
  with login_resume_cookies[of e db p] show ?thesis by (simp only:) blast
next
  case (Refresh c)
  show ?thesis
  proof (cases "status (fst (refresh e db c)) = 200")
    case True
    from refresh_success_cases[OF True] obtain t d u where
      c: "c = Some t" and ne: "t \<noteq> []" and lg: "log_expiration e t = Inr ()" and
      v: "jwt_verify e t (REFRESH_TOKEN_SECRET e) = Inr d" and
      sel: "select_by_username db (claim_username d) = Some u" and
      mem: "t \<in> set (parse_refreshTokens u)"
      by blast
    from refresh_rotate[OF ne lg v sel mem] c Refresh
    have "cookies (fst (handle e db rq)) =
      [Cookie ''access_token''
         (jwt_sign e \<lparr>payload_username = JString (claim_username d),
                       payload_role = Some (role u)\<rparr> (JWT_SECRET e) ACCESS_TOKEN_EXPIRY)
         access_cookie_options,
       Cookie ''refresh_token''
         (jwt_sign e \<lparr>payload_username = JString (claim_username d), payload_role = None\<rparr>
            (REFRESH_TOKEN_SECRET e) REFRESH_TOKEN_EXPIRY)
         refresh_cookie_options]"
      by (simp add: response_defs generateAccessToken_def generateRefreshToken_def)
    then show ?thesis by blast
  next
    case False
    then have "cookies (fst (refresh e db c)) = [] \<or>
       cookies (fst (refresh e db c)) =
         [ClearCookie ''access_token'' clear_options,
          ClearCookie ''refresh_token'' clear_options]"
      by (auto simp: refresh_def refresh_present_def refresh_verified_def response_defs Let_def
          split: option.splits sum.splits if_splits)
    with Refresh show ?thesis by auto
  qed
next
  case (Logout c)
  then show ?thesis by (simp add: logout_def response_defs split: option.splits)
next
  case CheckUsers
  then show ?thesis by (simp add: check_users_def response_defs)
qed

lemma signup_result:
  "snd (signup e db un pw) =
     (if status (fst (signup e db un pw)) = 201
      then db @ [\<lparr>user_id = randomUUID e, username = case_option [] id un,
                  passwordHash = bcrypt_hash e (case_option [] id pw) 10,
                  role = (if db = [] then ''admin'' else ''user''),
                  refreshTokens = Some [], defaultDashboardId = None\<rparr>]
      else db)"
  by (simp add: signup_def signup_checked_def insert_user_def response_defs Let_def
      split: option.splits)

lemma handle_keeps_rows:
  "length db \<le> length (snd (handle e db rq)) \<and>
   map (\<lambda>u. (user_id u, role u)) (take (length db) (snd (handle e db rq))) =
     map (\<lambda>u. (user_id u, role u)) db"
proof (cases rq)
  case (Signup un pw)
  then show ?thesis by (simp add: signup_result)
next
  case (Login un pw)
  with login_cases[of e db un pw] show ?thesis by auto
next
  case (LoginResume p)
  with login_resume_cases[of e db p] show ?thesis by auto
next
  case (Refresh c)
  then show ?thesis
    by (simp add: refresh_def refresh_present_def refresh_verified_def Let_def
        split: option.splits sum.splits)
next
  case (Logout c)
  then show ?thesis by (simp add: logout_def split: option.splits)
next
  case CheckUsers
  then show ?thesis by (simp add: check_users_def)
qed

lemma run_keeps_rows:
  "length db \<le> length (run db steps) \<and>
   map (\<lambda>u. (user_id u, role u)) (take (length db) (run db steps)) =
     map (\<lambda>u. (user_id u, role u)) db"
proof (induction steps arbitrary: db)
  case Nil
  show ?case by simp
next
  case (Cons s steps)
  obtain e rq where s: "s = (e, rq)" by (cases s)
  let ?db1 = "snd (handle e db rq)"
  let ?k = "\<lambda>u. (user_id u, role u)"
  from handle_keeps_rows[of db e rq]
  have l1: "length db \<le> length ?db1" and k1: "map ?k (take (length db) ?db1) = map ?k db"
    by auto
  from Cons.IH[of ?db1]
  have l2: "length ?db1 \<le> length (run ?db1 steps)"
    and k2: "map ?k (take (length ?db1) (run ?db1 steps)) = map ?k ?db1" by auto
  have "take (length db) (run ?db1 steps) = take (length db) (take (length ?db1) (run ?db1 steps))"
    using l1 by (simp add: min_def)
  then have "map ?k (take (length db) (run ?db1 steps)) =
             take (length db) (map ?k (take (length ?db1) (run ?db1 steps)))"
    by (simp only: take_map)
  also have "\<dots> = map ?k (take (length db) ?db1)" by (simp only: k2 take_map)
  also have "\<dots> = map ?k db" by (rule k1)
  finally show ?case using l1 l2 s by simp
qed

lemma handle_keys:
  "(map user_id (snd (handle e db rq)) = map user_id db \<and>
    map username (snd (handle e db rq)) = map username db) \<or>
   (\<exists>row. snd (handle e db rq) = db @ [row] \<and> user_id row \<notin> set (map user_id db) \<and>
      username row \<notin> set (map username db))"
proof (cases rq)
  case (Signup un pw)
  then show ?thesis
    by (auto simp: signup_def signup_checked_def insert_user_def Let_def split: option.splits)
next
  case (Login un pw)
  with login_cases[of e db un pw] show ?thesis by auto
next
  case (LoginResume p)
  with login_resume_cases[of e db p] show ?thesis by auto
next
  case (Refresh c)
  then show ?thesis
    by (simp add: refresh_def refresh_present_def refresh_verified_def Let_def map_cols_sweep
        split: option.splits sum.splits)
next
  case (Logout c)
  then show ?thesis by (simp add: logout_def map_cols_logout_scan split: option.splits)
next
  case CheckUsers
  then show ?thesis by (simp add: check_users_def)
qed

lemma run_distinct:
  "distinct (map user_id db) \<Longrightarrow> distinct (map username db) \<Longrightarrow>
   distinct (map user_id (run db steps)) \<and> distinct (map username (run db steps))"
proof (induction steps arbitrary: db)
  case Nil
  then show ?case by simp
next
  case (Cons s steps)
  obtain e rq where s: "s = (e, rq)" by (cases s)
  from handle_keys[of e db rq] Cons.prems
  have "distinct (map user_id (snd (handle e db rq))) \<and>
        distinct (map username (snd (handle e db rq)))"
    by auto
  with Cons.IH[of "snd (handle e db rq)"] s show ?case by simp
qed

lemma span_3d: "span_ms ACCESS_TOKEN_EXPIRY = Some 259200000"
  by (simp add: ACCESS_TOKEN_EXPIRY_def span_ms_def unit_ms_def digit_val_def)

lemma span_7d: "span_ms REFRESH_TOKEN_EXPIRY = Some 604800000"
  by (simp add: REFRESH_TOKEN_EXPIRY_def span_ms_def unit_ms_def digit_val_def)

section \<open>A retired token stays retired\<close>

lemma evolves_cols:
  "list_all2 (row_evolves i R) db db' \<Longrightarrow> map user_id db' = map user_id db"
  by (induction rule: list_all2_induct) (auto simp: row_evolves_def)

lemma evolves_select:
  "list_all2 (row_evolves i R) db db' \<Longrightarrow>
   select_by_username db name = Some u \<Longrightarrow> user_id u = i \<Longrightarrow>
   R \<notin> set (parse_refreshTokens u) \<Longrightarrow>
   \<exists>u'. select_by_username db' name = Some u' \<and> user_id u' = i \<and>
        R \<notin> set (parse_refreshTokens u')"
  unfolding select_by_username_def
  by (induction rule: list_all2_induct) (auto simp: row_evolves_def split: if_splits)

lemma retired_evolves:
  assumes "token_retired name i R db" "list_all2 (row_evolves i R) db db'"
  shows "token_retired name i R db'"
proof -
  from assms(1) obtain u where d: "distinct (map user_id db)"
    and s: "select_by_username db name = Some u" and i: "user_id u = i"
    and a: "R \<notin> set (parse_refreshTokens u)"
    by (auto simp: token_retired_def split: option.splits)
  from evolves_select[OF assms(2) s i a] evolves_cols[OF assms(2)] d
  show ?thesis by (auto simp: token_retired_def)
qed

lemma evolves_update:
  assumes "j = i \<Longrightarrow> R \<notin> set ts"
  shows "list_all2 (row_evolves i R) db (update_refreshTokens j ts db)"
  using assms
  by (auto simp: update_refreshTokens_def list_all2_map2 list_all2_same row_evolves_def
      parse_refreshTokens_def)

lemma retired_row:
  assumes "token_retired name i R db" "v \<in> set db" "user_id v = i"
  shows "username v = name \<and> R \<notin> set (parse_refreshTokens v)"
proof -
  from assms(1) obtain u where d: "distinct (map user_id db)"
    and s: "select_by_username db name = Some u" and i: "user_id u = i"
    and a: "R \<notin> set (parse_refreshTokens u)"
    by (auto simp: token_retired_def split: option.splits)
  from select_by_username_SomeD[OF s] have u: "u \<in> set db" "username u = name" by auto
  from same_row[OF d u(1) assms(2)] assms(3) i have "v = u" by simp
  with u a show ?thesis by simp
qed

lemma retired_write:
  assumes ret: "token_retired name i R db"
    and sel: "select_by_username db n = Some v"
    and new: "n = name \<Longrightarrow> R \<notin> set (parse_refreshTokens v) \<Longrightarrow> R \<notin> set ts"
  shows "token_retired name i R (update_refreshTokens (user_id v) ts db)"
proof -
  from select_by_username_SomeD[OF sel] have v: "v \<in> set db" "username v = n" by auto
  have "user_id v = i \<Longrightarrow> R \<notin> set ts"
    using retired_row[OF ret v(1)] v(2) new by auto
  then have "list_all2 (row_evolves i R) db (update_refreshTokens (user_id v) ts db)"
    by (rule evolves_update)
  with ret show ?thesis by (rule retired_evolves)
qed

lemma evolves_without_token: "row_evolves i R v (without_token t v)"
  using subset_without_token[of t v]
  by (auto simp: row_evolves_def) (auto simp: without_token_def split: option.splits)

lemma retired_sweep:
  assumes "token_retired name i R db"
  shows "token_retired name i R (sweep t db db)"
proof -
  from assms have d: "distinct (map user_id db)" by (simp add: token_retired_def)
  have "list_all2 (row_evolves i R) db (map (without_token t) db)"
    by (simp add: list_all2_map2 list_all2_same evolves_without_token)
  with assms show ?thesis by (simp add: sweep_distinct[OF d] retired_evolves)
qed

lemma retired_logout_scan:
  assumes ret: "token_retired name i R db"
  shows "token_retired name i R (logout_scan t db db)"
proof (cases "find (\<lambda>u. t \<in> set (parse_refreshTokens u)) db")
  case None
  with ret show ?thesis by (simp add: logout_scan_first)
next
  case (Some v)
  then have v: "v \<in> set db" by (auto simp: find_Some_iff in_set_conv_nth)
  have "user_id v = i \<Longrightarrow> R \<notin> set (filter (\<lambda>x. x \<noteq> t) (parse_refreshTokens v))"
    using retired_row[OF ret v] by simp
  then have "list_all2 (row_evolves i R) db
      (update_refreshTokens (user_id v) (filter (\<lambda>x. x \<noteq> t) (parse_refreshTokens v)) db)"
    by (rule evolves_update)
  with ret Some show ?thesis by (simp add: logout_scan_first retired_evolves)
qed

lemma retired_insert:
  assumes "token_retired name i R db" "insert_user row db = Inr db'"
  shows "token_retired name i R db'"
proof -
  from assms(2) have db': "db' = db @ [row]" and fresh: "user_id row \<notin> set (map user_id db)"
    by (auto simp: insert_user_def split: if_splits)
  from assms(1) obtain u where s: "find (\<lambda>u. username u = name) db = Some u"
    by (auto simp: token_retired_def select_by_username_def split: option.splits)
  then have "find (\<lambda>u. username u = name) (db @ [row]) = Some u"
    by (induction db) (auto split: if_splits)
  with assms(1) s fresh db' show ?thesis
    by (auto simp: token_retired_def select_by_username_def)
qed

lemma retired_handle:
  assumes ret: "token_retired name i R db"
    and keep: "keeps_retired name i R (e, rq)"
  shows "token_retired name i R (snd (handle e db rq))"
proof (cases rq)
  case (Signup un pw)
  show ?thesis
    using ret retired_insert[OF ret]
    by (auto simp: Signup signup_def signup_checked_def Let_def split: option.splits sum.splits)
next
  case (Login un pw)
  from login_cases[of e db un pw] show ?thesis
  proof
    assume "snd (login e db un pw) = db"
    with ret Login show ?thesis by simp
  next
    assume "\<exists>n v. bind_text e un = Inr n \<and> select_by_username db n = Some v \<and>
      snd (login e db un pw) =
        update_refreshTokens (user_id v)
          (parse_refreshTokens v @ [generateRefreshToken e un]) db"
    then obtain n v where b: "bind_text e un = Inr n" and sel: "select_by_username db n = Some v"
      and w: "snd (login e db un pw) =
        update_refreshTokens (user_id v)
          (parse_refreshTokens v @ [generateRefreshToken e un]) db" by blast
    have "token_retired name i R (update_refreshTokens (user_id v)
          (parse_refreshTokens v @ [generateRefreshToken e un]) db)"
    proof (rule retired_write[OF ret sel])
      assume "n = name" and "R \<notin> set (parse_refreshTokens v)"
      with keep b Login show "R \<notin> set (parse_refreshTokens v @ [generateRefreshToken e un])"
        by (auto simp: keeps_retired_def)
    qed
    with w Login show ?thesis by simp
  qed
next
  case (LoginResume p)
  from login_resume_cases[of e db p] show ?thesis
  proof
    assume "snd (login_resume e db p) = db"
    with ret LoginResume show ?thesis by simp
  next
    assume w: "snd (login_resume e db p) =
      update_refreshTokens (user_id (pending_user p))
        (parse_refreshTokens (pending_user p) @ [generateRefreshToken e (pending_username p)]) db"
    have "user_id (pending_user p) = i \<Longrightarrow>
      R \<notin> set (parse_refreshTokens (pending_user p) @
         [generateRefreshToken e (pending_username p)])"
      using keep LoginResume by (auto simp: keeps_retired_def)
    then have "list_all2 (row_evolves i R) db (snd (login_resume e db p))"
      unfolding w by (rule evolves_update)
    with ret LoginResume show ?thesis by (simp add: retired_evolves)
  qed
next
  case (Refresh c)
  have new: "generateRefreshToken e (JString name) \<noteq> R"
    using keep Refresh by (simp add: keeps_retired_def)
  have "\<And>n v x. select_by_username db n = Some v \<Longrightarrow>
      token_retired name i R (update_refreshTokens (user_id v)
         (splice_one (nat (indexOf (parse_refreshTokens v) x)) (parse_refreshTokens v)
            @ [generateRefreshToken e (JString n)]) db)"
  proof -
    fix n v x assume sel: "select_by_username db n = Some v"
    show "token_retired name i R (update_refreshTokens (user_id v)
         (splice_one (nat (indexOf (parse_refreshTokens v) x)) (parse_refreshTokens v)
            @ [generateRefreshToken e (JString n)]) db)"
    proof (rule retired_write[OF ret sel])
      assume n: "n = name" and a: "R \<notin> set (parse_refreshTokens v)"
      from a have "R \<notin> set (splice_one (nat (indexOf (parse_refreshTokens v) x))
          (parse_refreshTokens v))"
        by (auto simp: splice_one_def dest: in_set_takeD in_set_dropD)
      with new n show "R \<notin> set (splice_one (nat (indexOf (parse_refreshTokens v) x))
          (parse_refreshTokens v) @ [generateRefreshToken e (JString n)])" by auto
    qed
  qed
  with ret retired_sweep[OF ret] show ?thesis
    by (auto simp: Refresh refresh_def refresh_present_def refresh_verified_def Let_def
        split: option.splits sum.splits)
next
  case (Logout c)
  with ret retired_logout_scan[OF ret] show ?thesis
    by (auto simp: logout_def split: option.splits)
next
  case CheckUsers
  with ret show ?thesis by (simp add: check_users_def)
qed

lemma retired_run:
  "token_retired name i R db \<Longrightarrow> \<forall>s\<in>set steps. keeps_retired name i R s \<Longrightarrow>
   token_retired name i R (run db steps)"
proof (induction steps arbitrary: db)
  case Nil
  then show ?case by simp
next
  case (Cons s steps)
  obtain e rq where s: "s = (e, rq)" by (cases s)
  with Cons.prems have "token_retired name i R (snd (handle e db rq))"
    by (intro retired_handle) auto
  with Cons s show ?case by simp
qed

lemma retired_refresh:
  assumes ret: "token_retired name i R db"
    and ne: "R \<noteq> []"
    and lg: "log_expiration e R = Inr ()"
    and who: "\<forall>d. jwt_verify e R (REFRESH_TOKEN_SECRET e) = Inr d \<longrightarrow> claim_username d = name"
  shows "status (fst (refresh e db (Some R))) = 401 \<and>
         (cookies (fst (refresh e db (Some R))) = [] \<or>
          cookies (fst (refresh e db (Some R))) =
            [ClearCookie ''access_token'' clear_options,
             ClearCookie ''refresh_token'' clear_options]) \<and>
         (\<forall>d. jwt_verify e R (REFRESH_TOKEN_SECRET e) = Inr d \<longrightarrow>
            fst (refresh e db (Some R)) =
              \<lparr>status = 401, body = Some [(''message'', JString ''Refresh token not found'')],
               cookies = [ClearCookie ''access_token'' clear_options,
                          ClearCookie ''refresh_token'' clear_options]\<rparr>)"
proof (cases "jwt_verify e R (REFRESH_TOKEN_SECRET e)")
  case (Inl err)
  with ne lg show ?thesis
    by (simp add: refresh_def refresh_present_def response_defs)
next
  case (Inr d)
  with who have n: "claim_username d = name" by simp
  from ret n obtain u where sel: "select_by_username db (claim_username d) = Some u"
    and a: "R \<notin> set (parse_refreshTokens u)"
    by (auto simp: token_retired_def split: option.splits)
  from refresh_not_found[OF ne lg Inr sel a] Inr show ?thesis by simp
qed

section \<open>The example environment\<close>

lemma log_ok_example:
  "t \<noteq> forged_token \<Longrightarrow> log_expiration (example_env s) t = Inr ()"
  by (simp add: example_env_def log_expiration_def getTokenExpiration_def new_Date_def
      toISOString_def)

section \<open>The claims\<close>

text \<open>
  C1 (rotation) at the failing inputs. The handler rotates (it removes the presented token
  and appends a new one), and yet in three situations the presented token \<^verbatim>\<open>alice.1\<close> is
  in the list afterwards and its replay is answered 200. (1) A login and the refresh at the
  same moment of the clock: the new token is \<^verbatim>\<open>alice.1\<close> again, since signing is a function
  of the payload and the clock. (2) Two logins at the same moment store \<^verbatim>\<open>alice.1\<close> twice,
  and the refresh removes the first occurrence only. (3) A login reads the row, another
  request rotates \<^verbatim>\<open>alice.1\<close> away while the login awaits the password comparison, and the
  login then writes the list it had read, with \<^verbatim>\<open>alice.1\<close> in it.
\<close>

theorem rotation_replay_accepted:
  "snd (login (example_env ''1'') [alice_row []] (JString ''alice'') (JString ''pw1'')) =
     [alice_row [''alice.1'']] \<and>
   status (fst (refresh (example_env ''1'') [alice_row [''alice.1'']] (Some ''alice.1''))) = 200 \<and>
   snd (refresh (example_env ''1'') [alice_row [''alice.1'']] (Some ''alice.1'')) =
     [alice_row [''alice.1'']] \<and>
   status (fst (refresh (example_env ''2'') [alice_row [''alice.1'']] (Some ''alice.1''))) = 200 \<and>
   snd (login (example_env ''1'') [alice_row [''alice.1'']] (JString ''alice'') (JString ''pw1'')) =
     [alice_row [''alice.1'', ''alice.1'']] \<and>
   status (fst (refresh (example_env ''2'') [alice_row [''alice.1'', ''alice.1'']]
     (Some ''alice.1''))) = 200 \<and>
   snd (refresh (example_env ''2'') [alice_row [''alice.1'', ''alice.1'']] (Some ''alice.1'')) =
     [alice_row [''alice.1'', ''alice.2'']] \<and>
   status (fst (refresh (example_env ''3'') [alice_row [''alice.1'', ''alice.2'']]
     (Some ''alice.1''))) = 200 \<and>
   login_begin (example_env ''2'') [alice_row [''alice.1'']] (JString ''alice'') (JString ''pw1'') =
     Inr \<lparr>pending_username = JString ''alice'', pending_password = JString ''pw1'',
          pending_user = alice_row [''alice.1'']\<rparr> \<and>
   status (fst (refresh (example_env ''2'') [alice_row [''alice.1'']] (Some ''alice.1''))) = 200 \<and>
   snd (refresh (example_env ''2'') [alice_row [''alice.1'']] (Some ''alice.1'')) =
     [alice_row [''alice.2'']] \<and>
   snd (login_resume (example_env ''3'') [alice_row [''alice.2'']]
          \<lparr>pending_username = JString ''alice'', pending_password = JString ''pw1'',
           pending_user = alice_row [''alice.1'']\<rparr>) =
     [alice_row [''alice.1'', ''alice.3'']] \<and>
   status (fst (refresh (example_env ''4'') [alice_row [''alice.1'', ''alice.3'']]
     (Some ''alice.1''))) = 200"
  by (simp add: eval_defs)

text \<open>
  C2 (reuse or orphan path). When the presented token \<open>R\<close> verifies, the claimed user has a
  row and the list of that row does not hold \<open>R\<close> (the diagnostic log before verification
  not raising, as for every token this server signed), the answer is 401 "Refresh token not
  found" with exactly the two clearing cookie headers and no cookie set; afterwards no row
  of the table holds \<open>R\<close>; and with distinct ids the table is the old one with \<open>R\<close> filtered
  out of every list, every other token and column untouched.
\<close>

theorem reuse_path:
  assumes ne: "R \<noteq> []"
    and lg: "log_expiration e R = Inr ()"
    and v: "jwt_verify e R (REFRESH_TOKEN_SECRET e) = Inr d"
    and sel: "select_by_username db (claim_username d) = Some u"
    and absent: "R \<notin> set (parse_refreshTokens u)"
  shows "fst (refresh e db (Some R)) =
           \<lparr>status = 401, body = Some [(''message'', JString ''Refresh token not found'')],
            cookies = [ClearCookie ''access_token'' clear_options,
                       ClearCookie ''refresh_token'' clear_options]\<rparr> \<and>
         (\<forall>v\<in>set (snd (refresh e db (Some R))). R \<notin> set (parse_refreshTokens v)) \<and>
         (distinct (map user_id db) \<longrightarrow>
            snd (refresh e db (Some R)) = map (without_token R) db)"
proof -
  note r = refresh_not_found[OF assms]
  have "\<forall>v\<in>set (sweep R db db). R \<notin> set (parse_refreshTokens v)"
    using sweep_removes_all by blast
  moreover have "distinct (map user_id db) \<longrightarrow> sweep R db db = map (without_token R) db"
    by (simp add: sweep_distinct)
  ultimately show ?thesis by (simp add: r)
qed

theorem reuse_path_witness:
  "jwt_verify (example_env ''3'') ''alice.1'' (REFRESH_TOKEN_SECRET (example_env ''3'')) =
     Inr \<lparr>claim_username = ''alice'', claim_role = None\<rparr> \<and>
   select_by_username [alice_row [''alice.2''], bob_row [''alice.1'', ''bob.1'']] ''alice'' =
     Some (alice_row [''alice.2'']) \<and>
   ''alice.1'' \<notin> set (parse_refreshTokens (alice_row [''alice.2''])) \<and>
   refresh (example_env ''3'') [alice_row [''alice.2''], bob_row [''alice.1'', ''bob.1'']]
      (Some ''alice.1'') =
     (\<lparr>status = 401, body = Some [(''message'', JString ''Refresh token not found'')],
       cookies = [ClearCookie ''access_token'' clear_options,
                  ClearCookie ''refresh_token'' clear_options]\<rparr>,
      [alice_row [''alice.2''], bob_row [''bob.1'']])"
proof -
  let ?db = "[alice_row [''alice.2''], bob_row [''alice.1'', ''bob.1'']]"
  let ?e = "example_env ''3''"
  have h1: "''alice.1'' \<noteq> []" by simp
  have h2: "log_expiration ?e ''alice.1'' = Inr ()"
    by (simp add: log_ok_example forged_token_def)
  have h3: "jwt_verify ?e ''alice.1'' (REFRESH_TOKEN_SECRET ?e) =
     Inr \<lparr>claim_username = ''alice'', claim_role = None\<rparr>"
    by (simp add: example_env_def)
  have h4: "select_by_username ?db
      (claim_username \<lparr>claim_username = ''alice'', claim_role = None\<rparr>) =
     Some (alice_row [''alice.2''])"
    by (simp add: select_by_username_def alice_row_def)
  have h5: "''alice.1'' \<notin> set (parse_refreshTokens (alice_row [''alice.2'']))"
    by (simp add: parse_refreshTokens_def alice_row_def)
  have h6: "distinct (map user_id ?db)" by (simp add: alice_row_def bob_row_def)
  have m: "map (without_token ''alice.1'') ?db = [alice_row [''alice.2''], bob_row [''bob.1'']]"
    by (simp add: without_token_def alice_row_def bob_row_def)
  from reuse_path[OF h1 h2 h3 h4 h5] h6 m
  have "refresh ?e ?db (Some ''alice.1'') =
     (\<lparr>status = 401, body = Some [(''message'', JString ''Refresh token not found'')],
       cookies = [ClearCookie ''access_token'' clear_options,
                  ClearCookie ''refresh_token'' clear_options]\<rparr>,
      [alice_row [''alice.2''], bob_row [''bob.1'']])"
    by (simp add: prod_eq_iff)
  with h3 h4 h5 show ?thesis by simp
qed

text \<open>
  C3 (logout twice), as the code has it. When at most one row holds the token \<open>R\<close>, the
  first logout removes \<open>R\<close> from the table; the second logout with \<open>R\<close> then changes no
  row and answers 200, as logout without a cookie does. The two answers differ: the second
  logout says "Logged out successfully" and clears both cookies (the http-only and the plain
  variant), logout without a cookie says "No session to logout" and sends no cookie header.
\<close>

theorem logout_twice:
  assumes ne: "R \<noteq> []"
    and one: "length (holders R db) \<le> 1"
  shows "holders R (snd (logout db (Some R))) = [] \<and>
         logout (snd (logout db (Some R))) (Some R) = (logged_out, snd (logout db (Some R))) \<and>
         logout (snd (logout db (Some R))) None = (no_session, snd (logout db (Some R))) \<and>
         status logged_out = 200 \<and> status no_session = 200 \<and>
         body logged_out = Some [(''message'', JString ''Logged out successfully'')] \<and>
         body no_session = Some [(''message'', JString ''No session to logout'')] \<and>
         cookies logged_out =
           [ClearCookie ''access_token'' clear_options,
            ClearCookie ''refresh_token'' clear_options,
            ClearCookie ''access_token'' clear_options_client,
            ClearCookie ''refresh_token'' clear_options_client] \<and>
         cookies no_session = []"
proof -
  let ?db1 = "snd (logout db (Some R))"
  have db1: "?db1 = logout_scan R db db"
    using ne by (simp add: logout_def)
  have h: "holders R ?db1 = []"
    using logout_removes_single[OF one] by (simp add: db1)
  then have "logout_scan R ?db1 ?db1 = ?db1"
    by (intro logout_scan_noop) (simp add: holders_empty_iff)
  with ne h show ?thesis by (simp add: logout_def response_defs)
qed

theorem logout_twice_witness:
  "length (holders ''alice.1'' [alice_row [''alice.1'', ''alice.2''], bob_row [''bob.1'']]) \<le> 1 \<and>
   snd (logout [alice_row [''alice.1'', ''alice.2''], bob_row [''bob.1'']] (Some ''alice.1'')) =
     [alice_row [''alice.2''], bob_row [''bob.1'']] \<and>
   logout [alice_row [''alice.2''], bob_row [''bob.1'']] (Some ''alice.1'') =
     (logged_out, [alice_row [''alice.2''], bob_row [''bob.1'']]) \<and>
   logout [alice_row [''alice.2''], bob_row [''bob.1'']] None =
     (no_session, [alice_row [''alice.2''], bob_row [''bob.1'']])"
proof -
  let ?db = "[alice_row [''alice.1'', ''alice.2''], bob_row [''bob.1'']]"
  have h1: "''alice.1'' \<noteq> []" by simp
  have h3: "length (holders ''alice.1'' ?db) \<le> 1"
    by (simp add: holders_def parse_refreshTokens_def alice_row_def bob_row_def)
  have db1: "snd (logout ?db (Some ''alice.1'')) = [alice_row [''alice.2''], bob_row [''bob.1'']]"
    by (simp add: logout_def update_refreshTokens_def alice_row_def bob_row_def)
  from logout_twice[OF h1 h3] h3 db1 show ?thesis by simp
qed

text \<open>
  The claim as stated fails: after the first logout removed \<^verbatim>\<open>alice.1\<close>, a second logout
  presenting it does not answer as a logout without cookie, and it clears cookies.
\<close>

theorem logout_twice_counterexample:
  "fst (logout (snd (logout [alice_row [''alice.1'']] (Some ''alice.1''))) (Some ''alice.1'')) \<noteq>
   fst (logout (snd (logout [alice_row [''alice.1'']] (Some ''alice.1''))) None) \<and>
   cookies (fst (logout (snd (logout [alice_row [''alice.1'']] (Some ''alice.1'')))
      (Some ''alice.1''))) \<noteq> [] \<and>
   cookies (fst (logout (snd (logout [alice_row [''alice.1'']] (Some ''alice.1''))) None)) = []"
  by (simp add: logout_def response_defs)

text \<open>
  C4 (credential opacity) at the failing input: a login body whose password is the number
  12345. For a username that has no row the answer is 401 "Invalid credentials"; for the
  username of a row the password comparison raises on the value that is not a string and
  the answer is 500 "Internal server error". The two answers tell whether the username
  exists.
\<close>

theorem login_password_type_reveals_user:
  "select_by_username [alice_row []] ''mallory'' = None \<and>
   select_by_username [alice_row []] ''alice'' = Some (alice_row []) \<and>
   login (example_env ''1'') [alice_row []] (JString ''mallory'') (JNumber 12345) =
     (\<lparr>status = 401, body = Some [(''message'', JString ''Invalid credentials'')],
       cookies = []\<rparr>, [alice_row []]) \<and>
   login (example_env ''1'') [alice_row []] (JString ''alice'') (JNumber 12345) =
     (\<lparr>status = 500, body = Some [(''message'', JString ''Internal server error'')],
       cookies = []\<rparr>, [alice_row []])"
  by (simp add: eval_defs)

text \<open>
  C5 (refresh failure discrimination) at the failing input: a forged token whose payload
  carries \<^verbatim>\<open>exp = 1e20\<close>. Its verification would fail with \<^verbatim>\<open>JsonWebTokenError\<close>, but the
  diagnostic log before verification raises on the invalid date and the handler answers 500
  "Internal server error" instead of 401 "Invalid refresh token".
\<close>

theorem refresh_forged_expiry:
  "jwt_verify (example_env ''2'') forged_token (REFRESH_TOKEN_SECRET (example_env ''2'')) =
     Inl ''JsonWebTokenError'' \<and>
   refresh (example_env ''2'') [alice_row []] (Some forged_token) =
     (\<lparr>status = 500, body = Some [(''message'', JString ''Internal server error'')],
       cookies = []\<rparr>, [alice_row []])"
  by (simp add: example_defs forged_token_def refresh_def refresh_present_def
      log_expiration_def getTokenExpiration_def new_Date_def toISOString_def response_defs)

text \<open>
  X1. Where the diagnostic log does not raise, a token that fails verification is answered as
  C5 says: an expired token with 401 "Refresh token expired" and both cookies cleared, any
  other failure with 401 "Invalid refresh token" and no cookie header; the table is unchanged.
\<close>

theorem refresh_failure_discrimination:
  assumes "R \<noteq> []" "log_expiration e R = Inr ()"
    "jwt_verify e R (REFRESH_TOKEN_SECRET e) = Inl err"
  shows "refresh e db (Some R) =
    (if err = ''TokenExpiredError''
     then (\<lparr>status = 401, body = Some [(''message'', JString ''Refresh token expired'')],
            cookies = [ClearCookie ''access_token'' clear_options,
                       ClearCookie ''refresh_token'' clear_options]\<rparr>, db)
     else (\<lparr>status = 401, body = Some [(''message'', JString ''Invalid refresh token'')],
            cookies = []\<rparr>, db))"
  using assms by (simp add: refresh_def refresh_present_def response_defs)

theorem refresh_failure_discrimination_witness:
  "jwt_verify (example_env ''2'') ''stale'' (REFRESH_TOKEN_SECRET (example_env ''2'')) =
     Inl ''TokenExpiredError'' \<and>
   refresh (example_env ''2'') [alice_row [''stale'']] (Some ''stale'') =
     (\<lparr>status = 401, body = Some [(''message'', JString ''Refresh token expired'')],
       cookies = [ClearCookie ''access_token'' clear_options,
                  ClearCookie ''refresh_token'' clear_options]\<rparr>, [alice_row [''stale'']]) \<and>
   jwt_verify (example_env ''2'') ''garbage'' (REFRESH_TOKEN_SECRET (example_env ''2'')) =
     Inl ''JsonWebTokenError'' \<and>
   refresh (example_env ''2'') [alice_row [''stale'']] (Some ''garbage'') =
     (\<lparr>status = 401, body = Some [(''message'', JString ''Invalid refresh token'')],
       cookies = []\<rparr>, [alice_row [''stale'']])"
proof -
  let ?e = "example_env ''2''"
  have n1: "''stale'' \<noteq> []" and n2: "''garbage'' \<noteq> []" by simp_all
  have l1: "log_expiration ?e ''stale'' = Inr ()"
    by (simp add: log_ok_example forged_token_def)
  have l2: "log_expiration ?e ''garbage'' = Inr ()"
    by (simp add: log_ok_example forged_token_def)
  have v1: "jwt_verify ?e ''stale'' (REFRESH_TOKEN_SECRET ?e) = Inl ''TokenExpiredError''"
    by (simp add: example_env_def)
  have v2: "jwt_verify ?e ''garbage'' (REFRESH_TOKEN_SECRET ?e) = Inl ''JsonWebTokenError''"
    by (simp add: example_env_def)
  from refresh_failure_discrimination[OF n1 l1 v1, of "[alice_row [''stale'']]"]
    refresh_failure_discrimination[OF n2 l2 v2, of "[alice_row [''stale'']]"] v1 v2
  show ?thesis by simp
qed

text \<open>
  C6 (the first user is the admin). A signup that succeeds (201) appends one row whose role is
  \<^verbatim>\<open>admin\<close> if the table was empty at the call and \<^verbatim>\<open>user\<close> otherwise; a signup that does
  not succeed leaves the table as it was. No run of requests changes the id or the role of a
  row that exists: the rows of the table before the run are still its first rows, with the
  same ids and roles.
\<close>

theorem first_user_is_admin:
  "(status (fst (signup e db un pw)) = 201 \<longrightarrow>
      (\<exists>name password. un = Some name \<and> pw = Some password \<and>
         snd (signup e db un pw) =
           db @ [\<lparr>user_id = randomUUID e, username = name,
                   passwordHash = bcrypt_hash e password 10,
                   role = (if db = [] then ''admin'' else ''user''),
                   refreshTokens = Some [], defaultDashboardId = None\<rparr>])) \<and>
   (status (fst (signup e db un pw)) \<noteq> 201 \<longrightarrow> snd (signup e db un pw) = db) \<and>
   length db \<le> length (run db steps) \<and>
   map (\<lambda>u. (user_id u, role u)) (take (length db) (run db steps)) =
     map (\<lambda>u. (user_id u, role u)) db"
proof -
  have "status (fst (signup e db un pw)) = 201 \<Longrightarrow> \<exists>name password. un = Some name \<and> pw = Some password"
    by (auto simp: signup_def signup_checked_def response_defs Let_def
      split: option.splits if_splits sum.splits)
  then show ?thesis
    using signup_result[of e db un pw] run_keeps_rows[of db steps] by auto
qed

theorem first_user_is_admin_witness:
  "snd (signup (example_env ''1'') [] (Some ''alice'') (Some ''pw1'')) = [alice_row []] \<and>
   role (alice_row []) = ''admin'' \<and>
   snd (signup (example_env ''2'') [alice_row []] (Some ''bob'') (Some ''pw2'')) =
     [alice_row [], bob_row []] \<and>
   role (bob_row []) = ''user'' \<and>
   map (\<lambda>u. (user_id u, role u))
     (take 2 (run [alice_row [], bob_row []]
        [(example_env ''3'', Login (JString ''bob'') (JString ''pw2'')),
         (example_env ''4'', Refresh (Some ''bob.3'')),
         (example_env ''5'', Signup (Some ''carol'') (Some ''pw3'')),
         (example_env ''6'', Logout (Some ''bob.4''))])) =
     [(''id-1'', ''admin''), (''id-2'', ''user'')]"
proof -
  let ?steps = "[(example_env ''3'', Login (JString ''bob'') (JString ''pw2'')),
         (example_env ''4'', Refresh (Some ''bob.3'')),
         (example_env ''5'', Signup (Some ''carol'') (Some ''pw3'')),
         (example_env ''6'', Logout (Some ''bob.4''))]"
  have s1: "status (fst (signup (example_env ''1'') [] (Some ''alice'') (Some ''pw1''))) = 201"
    by (simp add: eval_defs)
  have s2: "status (fst (signup (example_env ''2'') [alice_row []] (Some ''bob'')
      (Some ''pw2''))) = 201"
    by (simp add: eval_defs)
  from first_user_is_admin[of "example_env ''1''" "[]" "Some ''alice''" "Some ''pw1''" "[]"] s1
  have a: "snd (signup (example_env ''1'') [] (Some ''alice'') (Some ''pw1'')) = [alice_row []]"
    by (auto simp: alice_row_def example_env_def)
  from first_user_is_admin[of "example_env ''2''" "[alice_row []]" "Some ''bob''"
      "Some ''pw2''" "[]"] s2
  have b: "snd (signup (example_env ''2'') [alice_row []] (Some ''bob'') (Some ''pw2'')) =
     [alice_row [], bob_row []]"
    by (auto simp: bob_row_def example_env_def)
  from first_user_is_admin[of "example_env ''1''" "[alice_row [], bob_row []]" None None ?steps]
  have "map (\<lambda>u. (user_id u, role u))
          (take (length [alice_row [], bob_row []]) (run [alice_row [], bob_row []] ?steps)) =
        map (\<lambda>u. (user_id u, role u)) [alice_row [], bob_row []]"
    by blast
  then have c: "map (\<lambda>u. (user_id u, role u)) (take 2 (run [alice_row [], bob_row []] ?steps)) =
     [(''id-1'', ''admin''), (''id-2'', ''user'')]"
    by (simp add: alice_row_def bob_row_def numeral_2_eq_2)
  from a b c show ?thesis by (simp add: alice_row_def bob_row_def)
qed

text \<open>
  C7 (login frame) at the failing input: two logins of the same user that overlap. The first
  reads the row with the list \<^verbatim>\<open>[alice.1]\<close> and awaits the password comparison; the second
  runs to its end and stores \<^verbatim>\<open>alice.2\<close>; the first then writes the list it had read with
  its own token appended, and \<^verbatim>\<open>alice.2\<close>, the session of the other device, is gone from
  the table although both logins answered 200.
\<close>

theorem login_overlap_drops_token:
  "login_begin (example_env ''2'') [alice_row [''alice.1'']] (JString ''alice'') (JString ''pw1'') =
     Inr \<lparr>pending_username = JString ''alice'', pending_password = JString ''pw1'',
          pending_user = alice_row [''alice.1'']\<rparr> \<and>
   status (fst (login (example_env ''2'') [alice_row [''alice.1'']] (JString ''alice'')
     (JString ''pw1''))) = 200 \<and>
   snd (login (example_env ''2'') [alice_row [''alice.1'']] (JString ''alice'') (JString ''pw1'')) =
     [alice_row [''alice.1'', ''alice.2'']] \<and>
   status (fst (login_resume (example_env ''3'') [alice_row [''alice.1'', ''alice.2'']]
          \<lparr>pending_username = JString ''alice'', pending_password = JString ''pw1'',
           pending_user = alice_row [''alice.1'']\<rparr>)) = 200 \<and>
   snd (login_resume (example_env ''3'') [alice_row [''alice.1'', ''alice.2'']]
          \<lparr>pending_username = JString ''alice'', pending_password = JString ''pw1'',
           pending_user = alice_row [''alice.1'']\<rparr>) =
     [alice_row [''alice.1'', ''alice.3'']]"
  by (simp add: eval_defs)

text \<open>
  C8 (cookie lifetime). Whatever step the subsystem takes, it sets no cookie, or only
  clearing headers, or exactly two cookies: \<^verbatim>\<open>access_token\<close>, holding a token signed with
  the expiry \<^verbatim>\<open>'3d'\<close>, with max-age 86400000 ms (1 day), and \<^verbatim>\<open>refresh_token\<close>, holding a
  token signed with the expiry \<^verbatim>\<open>'7d'\<close>, with max-age 604800000 ms (7 days). The max-age
  of each is at most the expiry its token is signed with: 259200000 ms and 604800000 ms.
\<close>

theorem cookie_lifetime_bound:
  "(cookies (fst (handle e db rq)) = [] \<or>
    cookies (fst (handle e db rq)) =
      [ClearCookie ''access_token'' clear_options,
       ClearCookie ''refresh_token'' clear_options] \<or>
    cookies (fst (handle e db rq)) =
      [ClearCookie ''access_token'' clear_options,
       ClearCookie ''refresh_token'' clear_options,
       ClearCookie ''access_token'' clear_options_client,
       ClearCookie ''refresh_token'' clear_options_client] \<or>
    (\<exists>name r. cookies (fst (handle e db rq)) =
       [Cookie ''access_token''
          (jwt_sign e \<lparr>payload_username = name, payload_role = Some r\<rparr> (JWT_SECRET e)
             ACCESS_TOKEN_EXPIRY)
          access_cookie_options,
        Cookie ''refresh_token''
          (jwt_sign e \<lparr>payload_username = name, payload_role = None\<rparr>
             (REFRESH_TOKEN_SECRET e) REFRESH_TOKEN_EXPIRY)
          refresh_cookie_options])) \<and>
   maxAge access_cookie_options = Some 86400000 \<and>
   span_ms ACCESS_TOKEN_EXPIRY = Some 259200000 \<and>
   within_expiry access_cookie_options ACCESS_TOKEN_EXPIRY \<and>
   maxAge refresh_cookie_options = Some 604800000 \<and>
   span_ms REFRESH_TOKEN_EXPIRY = Some 604800000 \<and>
   within_expiry refresh_cookie_options REFRESH_TOKEN_EXPIRY"
proof -
  have bounds: "within_expiry access_cookie_options ACCESS_TOKEN_EXPIRY \<and>
      within_expiry refresh_cookie_options REFRESH_TOKEN_EXPIRY"
    by (simp add: within_expiry_def span_3d span_7d access_cookie_options_def
        refresh_cookie_options_def)
  have ages: "maxAge access_cookie_options = Some 86400000 \<and>
      maxAge refresh_cookie_options = Some 604800000"
    by (simp add: access_cookie_options_def refresh_cookie_options_def)
  from handle_cookies[of e db rq] bounds ages show ?thesis
    by (simp add: span_3d span_7d)
qed

theorem cookie_lifetime_bound_witness:
  "cookies (fst (handle (example_env ''2'') [alice_row []]
      (Login (JString ''alice'') (JString ''pw1'')))) =
     [Cookie ''access_token''
        (jwt_sign (example_env ''2'')
           \<lparr>payload_username = JString ''alice'', payload_role = Some ''admin''\<rparr> ''secret''
           ''3d'')
        access_cookie_options,
      Cookie ''refresh_token''
        (jwt_sign (example_env ''2'')
           \<lparr>payload_username = JString ''alice'', payload_role = None\<rparr> ''secret'' ''7d'')
        refresh_cookie_options] \<and>
   maxAge access_cookie_options = Some 86400000 \<and>
   span_ms ''3d'' = Some 259200000 \<and>
   maxAge refresh_cookie_options = Some 604800000 \<and>
   span_ms ''7d'' = Some 604800000"
proof -
  let ?e = "example_env ''2''"
  let ?rq = "Login (JString ''alice'') (JString ''pw1'')"
  have c: "cookies (fst (handle ?e [alice_row []] ?rq)) =
     [Cookie ''access_token''
        (jwt_sign ?e \<lparr>payload_username = JString ''alice'', payload_role = Some ''admin''\<rparr>
           ''secret'' ''3d'')
        access_cookie_options,
      Cookie ''refresh_token''
        (jwt_sign ?e \<lparr>payload_username = JString ''alice'', payload_role = None\<rparr>
           ''secret'' ''7d'')
        refresh_cookie_options]"
    by (simp add: eval_defs)
  from cookie_lifetime_bound[of ?e "[alice_row []]" ?rq] c show ?thesis
    by (simp add: ACCESS_TOKEN_EXPIRY_def REFRESH_TOKEN_EXPIRY_def)
qed

text \<open>
  C9 (the role comes from the store). A successful refresh signs the new access token with
  the username of the verified token and the role of the user's row in the table, and its
  \<^verbatim>\<open>isAdmin\<close> flag is whether that stored role is \<^verbatim>\<open>admin\<close>. Whatever role claim the
  presented token carries, the response and the table are the same.
\<close>

theorem refresh_role_from_store:
  assumes ok: "status (fst (refresh e db c)) = 200"
  shows "(\<exists>R d u. c = Some R \<and> jwt_verify e R (REFRESH_TOKEN_SECRET e) = Inr d \<and>
            select_by_username db (claim_username d) = Some u \<and>
            cookies (fst (refresh e db c)) =
              [Cookie ''access_token''
                 (jwt_sign e
                    \<lparr>payload_username = JString (claim_username d),
                     payload_role = Some (role u)\<rparr>
                    (JWT_SECRET e) ACCESS_TOKEN_EXPIRY)
                 access_cookie_options,
               Cookie ''refresh_token'' (generateRefreshToken e (JString (claim_username d)))
                 refresh_cookie_options] \<and>
            body (fst (refresh e db c)) =
              Some [(''message'', JString ''Token refreshed successfully''),
                    (''isAdmin'', JBool (role u = ''admin''))]) \<and>
         (\<forall>r. refresh
                (e\<lparr>jwt_verify :=
                     \<lambda>t s. map_sum id (\<lambda>d. d\<lparr>claim_role := r\<rparr>) (jwt_verify e t s)\<rparr>)
                db c = refresh e db c)"
proof -
  from refresh_success_cases[OF ok] obtain R d u where
    c: "c = Some R" and ne: "R \<noteq> []" and lg: "log_expiration e R = Inr ()" and
    v: "jwt_verify e R (REFRESH_TOKEN_SECRET e) = Inr d" and
    sel: "select_by_username db (claim_username d) = Some u" and
    mem: "R \<in> set (parse_refreshTokens u)"
    by blast
  from refresh_rotate[OF ne lg v sel mem] c v sel
  have "\<exists>R d u. c = Some R \<and> jwt_verify e R (REFRESH_TOKEN_SECRET e) = Inr d \<and>
            select_by_username db (claim_username d) = Some u \<and>
            cookies (fst (refresh e db c)) =
              [Cookie ''access_token''
                 (jwt_sign e
                    \<lparr>payload_username = JString (claim_username d),
                     payload_role = Some (role u)\<rparr>
                    (JWT_SECRET e) ACCESS_TOKEN_EXPIRY)
                 access_cookie_options,
               Cookie ''refresh_token'' (generateRefreshToken e (JString (claim_username d)))
                 refresh_cookie_options] \<and>
            body (fst (refresh e db c)) =
              Some [(''message'', JString ''Token refreshed successfully''),
                    (''isAdmin'', JBool (role u = ''admin''))]"
    by (auto simp: response_defs generateAccessToken_def)
  then show ?thesis using refresh_ignores_role_claim by blast
qed

theorem refresh_role_from_store_witness:
  "status (fst (refresh (example_env ''2'') [alice_row [''alice.1'']] (Some ''alice.1''))) = 200 \<and>
   cookies (fst (refresh (example_env ''2'') [alice_row [''alice.1'']] (Some ''alice.1''))) =
     [Cookie ''access_token'' ''alice.2.admin'' access_cookie_options,
      Cookie ''refresh_token'' ''alice.2'' refresh_cookie_options] \<and>
   body (fst (refresh (example_env ''2'') [alice_row [''alice.1'']] (Some ''alice.1''))) =
     Some [(''message'', JString ''Token refreshed successfully''), (''isAdmin'', JBool True)]"
proof -
  let ?db = "[alice_row [''alice.1'']]"
  let ?e = "example_env ''2''"
  have h: "status (fst (refresh ?e ?db (Some ''alice.1''))) = 200"
    by (simp add: eval_defs)
  from refresh_role_from_store[OF h] obtain R d u where
    r: "Some ''alice.1'' = Some R" and
    v: "jwt_verify ?e R (REFRESH_TOKEN_SECRET ?e) = Inr d" and
    s: "select_by_username ?db (claim_username d) = Some u" and
    c: "cookies (fst (refresh ?e ?db (Some ''alice.1''))) =
              [Cookie ''access_token''
                 (jwt_sign ?e
                    \<lparr>payload_username = JString (claim_username d),
                     payload_role = Some (role u)\<rparr>
                    (JWT_SECRET ?e) ACCESS_TOKEN_EXPIRY)
                 access_cookie_options,
               Cookie ''refresh_token'' (generateRefreshToken ?e (JString (claim_username d)))
                 refresh_cookie_options]" and
    b: "body (fst (refresh ?e ?db (Some ''alice.1''))) =
              Some [(''message'', JString ''Token refreshed successfully''),
                    (''isAdmin'', JBool (role u = ''admin''))]"
    by blast
  from r have R: "R = ''alice.1''" by simp
  from v R have d: "d = \<lparr>claim_username = ''alice'', claim_role = None\<rparr>"
    by (simp add: example_env_def)
  from s d have u: "u = alice_row [''alice.1'']"
    by (simp add: select_by_username_def alice_row_def)
  from c have c': "cookies (fst (refresh ?e ?db (Some ''alice.1''))) =
     [Cookie ''access_token'' ''alice.2.admin'' access_cookie_options,
      Cookie ''refresh_token'' ''alice.2'' refresh_cookie_options]"
    unfolding d u by (simp add: alice_row_def generateRefreshToken_def example_env_def)
  from b have b': "body (fst (refresh ?e ?db (Some ''alice.1''))) =
     Some [(''message'', JString ''Token refreshed successfully''), (''isAdmin'', JBool True)]"
    unfolding u by (simp add: alice_row_def)
  from h c' b' show ?thesis by simp
qed

text \<open>
  C10 (rotation keeps the count). A successful refresh makes one write: the list of the user's
  row becomes the old list without the first occurrence of the presented token, followed by
  the new refresh token. Its length is the old length, and the other tokens keep their order.
\<close>

theorem refresh_preserves_count:
  assumes ok: "status (fst (refresh e db c)) = 200"
  shows "\<exists>R d u u'. c = Some R \<and> jwt_verify e R (REFRESH_TOKEN_SECRET e) = Inr d \<and>
           select_by_username db (claim_username d) = Some u \<and>
           R \<in> set (parse_refreshTokens u) \<and>
           snd (refresh e db c) =
             update_refreshTokens (user_id u)
               (remove1 R (parse_refreshTokens u) @ [generateRefreshToken e (JString (claim_username d))])
               db \<and>
           select_by_username (snd (refresh e db c)) (claim_username d) = Some u' \<and>
           parse_refreshTokens u' =
             remove1 R (parse_refreshTokens u) @ [generateRefreshToken e (JString (claim_username d))] \<and>
           length (parse_refreshTokens u') = length (parse_refreshTokens u)"
proof -
  from refresh_success_cases[OF ok] obtain R d u where
    c: "c = Some R" and ne: "R \<noteq> []" and lg: "log_expiration e R = Inr ()" and
    v: "jwt_verify e R (REFRESH_TOKEN_SECRET e) = Inr d" and
    sel: "select_by_username db (claim_username d) = Some u" and
    mem: "R \<in> set (parse_refreshTokens u)"
    by blast
  let ?ts = "remove1 R (parse_refreshTokens u) @ [generateRefreshToken e (JString (claim_username d))]"
  from refresh_rotate[OF ne lg v sel mem] c
  have db': "snd (refresh e db c) = update_refreshTokens (user_id u) ?ts db" by simp
  have sel': "select_by_username (snd (refresh e db c)) (claim_username d) =
               Some (u\<lparr>refreshTokens := Some ?ts\<rparr>)"
    by (simp add: db' select_update sel)
  have len: "length ?ts = length (parse_refreshTokens u)"
  proof -
    from mem have "0 < length (parse_refreshTokens u)" by (cases "parse_refreshTokens u") auto
    with mem show ?thesis by (simp add: length_remove1)
  qed
  from c v sel mem db' sel' len show ?thesis
    by (auto simp: parse_refreshTokens_def)
qed

theorem refresh_preserves_count_witness:
  "status (fst (refresh (example_env ''2'')
      [alice_row [''alice.1'', ''alice.0'', ''alice.1''], bob_row [''bob.1'']]
      (Some ''alice.1''))) = 200 \<and>
   snd (refresh (example_env ''2'')
      [alice_row [''alice.1'', ''alice.0'', ''alice.1''], bob_row [''bob.1'']]
      (Some ''alice.1'')) =
     [alice_row [''alice.0'', ''alice.1'', ''alice.2''], bob_row [''bob.1'']]"
proof -
  let ?db = "[alice_row [''alice.1'', ''alice.0'', ''alice.1''], bob_row [''bob.1'']]"
  let ?e = "example_env ''2''"
  have h: "status (fst (refresh ?e ?db (Some ''alice.1''))) = 200"
    by (simp add: eval_defs)
  from refresh_preserves_count[OF h] obtain R d u where
    r: "Some ''alice.1'' = Some R" and
    v: "jwt_verify ?e R (REFRESH_TOKEN_SECRET ?e) = Inr d" and
    s: "select_by_username ?db (claim_username d) = Some u" and
    w: "snd (refresh ?e ?db (Some ''alice.1'')) =
          update_refreshTokens (user_id u)
            (remove1 R (parse_refreshTokens u) @ [generateRefreshToken ?e (JString (claim_username d))])
            ?db"
    by blast
  from r have R: "R = ''alice.1''" by simp
  from v R have d: "d = \<lparr>claim_username = ''alice'', claim_role = None\<rparr>"
    by (simp add: example_env_def)
  from s d have u: "u = alice_row [''alice.1'', ''alice.0'', ''alice.1'']"
    by (simp add: select_by_username_def alice_row_def)
  from w have "snd (refresh ?e ?db (Some ''alice.1'')) =
     [alice_row [''alice.0'', ''alice.1'', ''alice.2''], bob_row [''bob.1'']]"
    unfolding R d u
    by (simp add: update_refreshTokens_def alice_row_def bob_row_def parse_refreshTokens_def
        generateRefreshToken_def example_env_def)
  with h show ?thesis by simp
qed

text \<open>
  X2. The hypothesis of distinct ids above is an invariant of the subsystem: after any run of
  requests from the empty table, no two rows share an id or a username.
\<close>

theorem keys_stay_distinct:
  "distinct (map user_id (run [] steps)) \<and> distinct (map username (run [] steps))"
  using run_distinct[of "[]" steps] by simp

text \<open>
  X3. Where the rotation does retire the token. Let the ids of the table be distinct, and let
  a refresh presenting \<open>R\<close> succeed for the user \<open>u\<close> whose list holds \<open>R\<close> exactly once,
  the newly signed refresh token being different from \<open>R\<close>. Then the write of that refresh
  leaves the user with the old list without \<open>R\<close> and the new token appended. After any
  later steps that do not sign \<open>R\<close> again for this user and resume no login that read the
  user's list while it held \<open>R\<close>, a refresh presenting \<open>R\<close> answers 401 and sets no
  cookie; when \<open>R\<close> still verifies it is the answer "Refresh token not found" with both
  cookies cleared. (\<open>R\<close> verifies for no other user, and decoding \<open>R\<close> does not depend on
  the moment.)
\<close>

theorem rotation_invariant:
  assumes ids: "distinct (map user_id db)"
    and ok: "status (fst (refresh e db (Some R))) = 200"
    and who: "jwt_verify e R (REFRESH_TOKEN_SECRET e) = Inr d"
    and row: "select_by_username db (claim_username d) = Some u"
    and once: "count_list (parse_refreshTokens u) R = 1"
    and fresh: "generateRefreshToken e (JString (claim_username d)) \<noteq> R"
    and later: "\<forall>s\<in>set steps. keeps_retired (claim_username d) (user_id u) R s"
    and decode: "jwt_decode e' R = jwt_decode e R"
    and same: "\<forall>d'. jwt_verify e' R (REFRESH_TOKEN_SECRET e') = Inr d' \<longrightarrow>
                 claim_username d' = claim_username d"
  shows "(\<exists>u'. select_by_username (snd (refresh e db (Some R))) (claim_username d) = Some u' \<and>
            parse_refreshTokens u' =
              remove1 R (parse_refreshTokens u) @
                [generateRefreshToken e (JString (claim_username d))] \<and>
            R \<notin> set (parse_refreshTokens u')) \<and>
         status (fst (refresh e' (run (snd (refresh e db (Some R))) steps) (Some R))) = 401 \<and>
         (cookies (fst (refresh e' (run (snd (refresh e db (Some R))) steps) (Some R))) = [] \<or>
          cookies (fst (refresh e' (run (snd (refresh e db (Some R))) steps) (Some R))) =
            [ClearCookie ''access_token'' clear_options,
             ClearCookie ''refresh_token'' clear_options]) \<and>
         (\<forall>d'. jwt_verify e' R (REFRESH_TOKEN_SECRET e') = Inr d' \<longrightarrow>
            fst (refresh e' (run (snd (refresh e db (Some R))) steps) (Some R)) =
              \<lparr>status = 401, body = Some [(''message'', JString ''Refresh token not found'')],
               cookies = [ClearCookie ''access_token'' clear_options,
                          ClearCookie ''refresh_token'' clear_options]\<rparr>)"
proof -
  let ?name = "claim_username d"
  let ?ts = "remove1 R (parse_refreshTokens u) @ [generateRefreshToken e (JString ?name)]"
  let ?db1 = "snd (refresh e db (Some R))"
  from refresh_success_cases[OF ok] who row
  have ne: "R \<noteq> []" and lg: "log_expiration e R = Inr ()"
    and mem: "R \<in> set (parse_refreshTokens u)" by auto
  from refresh_rotate[OF ne lg who row mem]
  have db1: "?db1 = update_refreshTokens (user_id u) ?ts db" by simp
  have gone: "R \<notin> set ?ts" using count_list_remove1_self[OF once] fresh by simp
  have sel1: "select_by_username ?db1 ?name = Some (u\<lparr>refreshTokens := Some ?ts\<rparr>)"
    by (simp add: db1 select_update row)
  have ret1: "token_retired ?name (user_id u) R ?db1"
    using ids gone by (simp add: token_retired_def sel1 parse_refreshTokens_def) (simp add: db1)
  have ret2: "token_retired ?name (user_id u) R (run ?db1 steps)"
    using ret1 later by (rule retired_run)
  have lg': "log_expiration e' R = Inr ()"
    using lg decode by (simp add: log_expiration_def getTokenExpiration_def)
  from retired_refresh[OF ret2 ne lg' same] sel1 gone
  show ?thesis by (simp add: parse_refreshTokens_def)
qed

theorem rotation_invariant_witness:
  "distinct (map user_id [alice_row [''alice.1''], bob_row [''bob.1'']]) \<and>
   status (fst (refresh (example_env ''2'') [alice_row [''alice.1''], bob_row [''bob.1'']]
      (Some ''alice.1''))) = 200 \<and>
   count_list (parse_refreshTokens (alice_row [''alice.1''])) ''alice.1'' = 1 \<and>
   generateRefreshToken (example_env ''2'') (JString ''alice'') = ''alice.2'' \<and>
   jwt_verify (example_env ''6'') ''alice.1'' (REFRESH_TOKEN_SECRET (example_env ''6'')) =
     Inr \<lparr>claim_username = ''alice'', claim_role = None\<rparr> \<and>
   fst (refresh (example_env ''6'')
     (run (snd (refresh (example_env ''2'') [alice_row [''alice.1''], bob_row [''bob.1'']]
                  (Some ''alice.1'')))
        [(example_env ''3'', Login (JString ''bob'') (JString ''pw2'')),
         (example_env ''3'',
          LoginResume \<lparr>pending_username = JString ''alice'', pending_password = JString ''pw1'',
                       pending_user = alice_row [''alice.2'']\<rparr>),
         (example_env ''4'', Logout (Some ''bob.1'')),
         (example_env ''5'', Refresh (Some ''alice.2''))])
     (Some ''alice.1'')) =
   \<lparr>status = 401, body = Some [(''message'', JString ''Refresh token not found'')],
    cookies = [ClearCookie ''access_token'' clear_options,
               ClearCookie ''refresh_token'' clear_options]\<rparr>"
proof -
  let ?db = "[alice_row [''alice.1''], bob_row [''bob.1'']]"
  let ?e = "example_env ''2''"
  let ?e' = "example_env ''6''"
  let ?d = "\<lparr>claim_username = ''alice'', claim_role = None\<rparr>"
  let ?steps = "[(example_env ''3'', Login (JString ''bob'') (JString ''pw2'')),
         (example_env ''3'',
          LoginResume \<lparr>pending_username = JString ''alice'', pending_password = JString ''pw1'',
                       pending_user = alice_row [''alice.2'']\<rparr>),
         (example_env ''4'', Logout (Some ''bob.1'')),
         (example_env ''5'', Refresh (Some ''alice.2''))]"
  have ids: "distinct (map user_id ?db)" by (simp add: alice_row_def bob_row_def)
  have ok: "status (fst (refresh ?e ?db (Some ''alice.1''))) = 200"
    by (simp add: eval_defs)
  have who: "jwt_verify ?e ''alice.1'' (REFRESH_TOKEN_SECRET ?e) = Inr ?d"
    by (simp add: example_env_def)
  have row: "select_by_username ?db (claim_username ?d) = Some (alice_row [''alice.1''])"
    by (simp add: select_by_username_def alice_row_def)
  have once: "count_list (parse_refreshTokens (alice_row [''alice.1''])) ''alice.1'' = 1"
    by (simp add: parse_refreshTokens_def alice_row_def)
  have new: "generateRefreshToken ?e (JString ''alice'') = ''alice.2''"
    by (simp add: generateRefreshToken_def example_env_def)
  then have fresh: "generateRefreshToken ?e (JString (claim_username ?d)) \<noteq> ''alice.1''"
    by simp
  have later: "\<forall>s\<in>set ?steps.
      keeps_retired (claim_username ?d) (user_id (alice_row [''alice.1''])) ''alice.1'' s"
    by (simp add: keeps_retired_def generateRefreshToken_def example_env_def bind_text_def
        alice_row_def parse_refreshTokens_def)
  have decode: "jwt_decode ?e' ''alice.1'' = jwt_decode ?e ''alice.1''"
    by (simp add: example_env_def)
  have again: "jwt_verify ?e' ''alice.1'' (REFRESH_TOKEN_SECRET ?e') = Inr ?d"
    by (simp add: example_env_def)
  then have same: "\<forall>d'. jwt_verify ?e' ''alice.1'' (REFRESH_TOKEN_SECRET ?e') = Inr d' \<longrightarrow>
      claim_username d' = claim_username ?d" by simp
  from rotation_invariant[OF ids ok who row once fresh later decode same] again
  have "fst (refresh ?e' (run (snd (refresh ?e ?db (Some ''alice.1''))) ?steps)
           (Some ''alice.1'')) =
     \<lparr>status = 401, body = Some [(''message'', JString ''Refresh token not found'')],
      cookies = [ClearCookie ''access_token'' clear_options,
                 ClearCookie ''refresh_token'' clear_options]\<rparr>"
    by blast
  with ids ok once new again show ?thesis by blast
qed

text \<open>
  X4. With a password that is a string, a login with a username that has no row and a login
  with a known username and a password that does not match the stored hash get the same
  response, status 401 with the body "Invalid credentials" and no cookie, and neither
  changes the table.
\<close>

theorem login_credential_opacity:
  assumes "truthy un1" "truthy pw1" "bind_text e1 un1 = Inr name1"
    and unknown: "select_by_username db1 name1 = None"
    and "truthy un2" "password2 \<noteq> []" "bind_text e2 un2 = Inr name2"
    and known: "select_by_username db2 name2 = Some u"
    and wrong: "\<not> bcrypt_compare e2 password2 (passwordHash u)"
  shows "fst (login e1 db1 un1 pw1) = fst (login e2 db2 un2 (JString password2)) \<and>
         fst (login e1 db1 un1 pw1) =
           \<lparr>status = 401, body = Some [(''message'', JString ''Invalid credentials'')],
            cookies = []\<rparr> \<and>
         snd (login e1 db1 un1 pw1) = db1 \<and>
         snd (login e2 db2 un2 (JString password2)) = db2"
  using assms
  by (simp add: login_def login_begin_def login_resume_def invalid_credentials_def res_json_def
      res_status_def res0_def)

theorem login_credential_opacity_witness:
  "select_by_username [alice_row []] ''mallory'' = None \<and>
   select_by_username [alice_row []] ''alice'' = Some (alice_row []) \<and>
   \<not> bcrypt_compare (example_env ''2'') ''guess'' (passwordHash (alice_row [])) \<and>
   fst (login (example_env ''1'') [alice_row []] (JString ''mallory'') (JString ''pw1'')) =
     fst (login (example_env ''2'') [alice_row []] (JString ''alice'') (JString ''guess'')) \<and>
   fst (login (example_env ''1'') [alice_row []] (JString ''mallory'') (JString ''pw1'')) =
     \<lparr>status = 401, body = Some [(''message'', JString ''Invalid credentials'')],
      cookies = []\<rparr>"
proof -
  have t1: "truthy (JString ''mallory'')" and t2: "truthy (JString ''pw1'')"
    and t3: "truthy (JString ''alice'')" and t4: "''guess'' \<noteq> []" by simp_all
  have b1: "bind_text (example_env ''1'') (JString ''mallory'') = Inr ''mallory''"
    by (simp add: bind_text_def)
  have b2: "bind_text (example_env ''2'') (JString ''alice'') = Inr ''alice''"
    by (simp add: bind_text_def)
  have h5: "select_by_username [alice_row []] ''mallory'' = None"
    by (simp add: select_by_username_def alice_row_def)
  have h6: "select_by_username [alice_row []] ''alice'' = Some (alice_row [])"
    by (simp add: select_by_username_def alice_row_def)
  have h7: "\<not> bcrypt_compare (example_env ''2'') ''guess'' (passwordHash (alice_row []))"
    by (simp add: example_env_def alice_row_def)
  from login_credential_opacity[OF t1 t2 b1 h5 t3 t4 b2 h6 h7] h5 h6 h7
  show ?thesis by blast
qed

text \<open>
  X5. The frame of a login whose row has not changed since it was read. With distinct ids, a
  login that resumes with 200 while the row it read is still the row \<open>i\<close> of the table
  changes exactly that row, and only its refresh-token list: the new list is the old one
  with the newly signed refresh token appended at the end.
\<close>

theorem login_frame:
  assumes ids: "distinct (map user_id db)"
    and ok: "status (fst (login_resume e db p)) = 200"
    and still: "i < length db" "db ! i = pending_user p"
  shows "snd (login_resume e db p) =
           db[i := (db ! i)\<lparr>refreshTokens :=
                Some (parse_refreshTokens (db ! i) @
                        [generateRefreshToken e (pending_username p)])\<rparr>]"
  using login_resume_success[OF ok] update_at_index[OF ids still(1)] still(2) by simp

theorem login_frame_witness:
  "distinct (map user_id [alice_row [''alice.1''], bob_row []]) \<and>
   login_begin (example_env ''2'') [alice_row [''alice.1''], bob_row []]
      (JString ''alice'') (JString ''pw1'') =
     Inr \<lparr>pending_username = JString ''alice'', pending_password = JString ''pw1'',
          pending_user = alice_row [''alice.1'']\<rparr> \<and>
   status (fst (login_resume (example_env ''2'') [alice_row [''alice.1''], bob_row []]
      \<lparr>pending_username = JString ''alice'', pending_password = JString ''pw1'',
       pending_user = alice_row [''alice.1'']\<rparr>)) = 200 \<and>
   snd (login_resume (example_env ''2'') [alice_row [''alice.1''], bob_row []]
      \<lparr>pending_username = JString ''alice'', pending_password = JString ''pw1'',
       pending_user = alice_row [''alice.1'']\<rparr>) =
     [alice_row [''alice.1'', ''alice.2''], bob_row []]"
proof -
  let ?db = "[alice_row [''alice.1''], bob_row []]"
  let ?p = "\<lparr>pending_username = JString ''alice'', pending_password = JString ''pw1'',
       pending_user = alice_row [''alice.1'']\<rparr>"
  have h1: "distinct (map user_id ?db)" by (simp add: alice_row_def bob_row_def)
  have b: "login_begin (example_env ''2'') ?db (JString ''alice'') (JString ''pw1'') = Inr ?p"
    by (simp add: eval_defs)
  have h2: "status (fst (login_resume (example_env ''2'') ?db ?p)) = 200"
    by (simp add: eval_defs)
  have h3: "0 < length ?db" by simp
  have h4: "?db ! 0 = pending_user ?p" by simp
  from login_frame[OF h1 h2 h3 h4]
  have "snd (login_resume (example_env ''2'') ?db ?p) =
     [alice_row [''alice.1'', ''alice.2''], bob_row []]"
    by (simp add: alice_row_def parse_refreshTokens_def generateRefreshToken_def
        example_env_def)
  with h1 b h2 show ?thesis by simp
qed

end
